theory Spec2Isabelle
  imports Main "HOL-Library.Word"
begin

text \<open>
  A model of the PDF signature engine (\<^verbatim>\<open>extractSignatures\<close>, \<^verbatim>\<open>validateSignature\<close>,
  \<^verbatim>\<open>validatePdfSignatures\<close>, \<^verbatim>\<open>countSignatures\<close>, \<^verbatim>\<open>hexToBytes\<close>) and of the
  certificate relay (\<^verbatim>\<open>cors-proxy-worker.js\<close>), followed by the properties proved of them.
  Exceptions are values of a sum type, the state of a loop is passed along, what the
  code reads from the platform or from a library outside the repository is a parameter.
\<close>

section \<open>JavaScript values used by the signature engine\<close>

text \<open>
  A \<^verbatim>\<open>Uint8Array\<close> is a list of 8-bit words. A JavaScript string is the list of
  its UTF-16 code units, each a natural number below 65536. String literals of the
  source are written \<open>str ''...''\<close>.
\<close>

type_synonym byte = "8 word"
type_synonym jsstring = "nat list"

definition str :: "string \<Rightarrow> jsstring" where
  "str s = map of_char s"

text \<open>
  A thrown value: an \<^verbatim>\<open>Error\<close> object with its \<^verbatim>\<open>message\<close>, or any other value
  (for which \<^verbatim>\<open>e instanceof Error\<close> is false).
\<close>

datatype js_exn = JsError jsstring | JsThrown

subsection \<open>substr, parseInt\<close>

definition substr :: "jsstring \<Rightarrow> nat \<Rightarrow> nat \<Rightarrow> jsstring" where
  "substr s i n = take n (drop i s)"

definition substring :: "jsstring \<Rightarrow> nat \<Rightarrow> nat \<Rightarrow> jsstring" where
  \<comment> \<open>\<^verbatim>\<open>s.substring(b, e)\<close> for \<open>b \<le> e \<le> length s\<close>, the only way the source calls it\<close>
  "substring s b e = take (e - b) (drop b s)"

definition isDigit :: "nat \<Rightarrow> bool" where
  "isDigit c = (48 \<le> c \<and> c \<le> 57)"

definition isHexDigit :: "nat \<Rightarrow> bool" where
  "isHexDigit c = ((48 \<le> c \<and> c \<le> 57) \<or> (65 \<le> c \<and> c \<le> 70) \<or> (97 \<le> c \<and> c \<le> 102))"

definition hexVal :: "nat \<Rightarrow> nat" where
  "hexVal c = (if c \<le> 57 then c - 48 else if c \<le> 70 then c - 55 else c - 87)"

text \<open>
  \<^verbatim>\<open>parseInt(s, radix)\<close> reads the longest prefix of digits of the radix. The source
  passes it captures of \<^verbatim>\<open>\d+\<close> (radix 10) and one or two characters of a capture of
  \<^verbatim>\<open>[0-9A-Fa-f]+\<close> (radix 16) only, so the sign, leading white space and \<^verbatim>\<open>0x\<close> prefix
  that \<^verbatim>\<open>parseInt\<close> also accepts never occur and are not modelled, and neither is its
  result \<^verbatim>\<open>NaN\<close> for a string that starts with no digit (the value is 0 here, which is
  also what a \<^verbatim>\<open>Uint8Array\<close> stores for \<^verbatim>\<open>NaN\<close>). The result is the exact natural
  number; JavaScript rounds it to a double, which is the same number below \<open>2 ^ 53\<close>.
\<close>

fun digitsVal :: "nat \<Rightarrow> (nat \<Rightarrow> bool) \<Rightarrow> nat \<Rightarrow> jsstring \<Rightarrow> nat" where
  "digitsVal radix ok acc [] = acc"
| "digitsVal radix ok acc (c # cs) =
     (if ok c then digitsVal radix ok (acc * radix + hexVal c) cs else acc)"

definition parseInt :: "jsstring \<Rightarrow> nat \<Rightarrow> nat" where
  "parseInt s radix = digitsVal radix (if radix = 16 then isHexDigit else isDigit) 0 s"

definition toUint8 :: "nat \<Rightarrow> byte" where
  \<comment> \<open>storing an integer into a \<^verbatim>\<open>Uint8Array\<close> wraps it modulo 256\<close>
  "toUint8 n = of_nat n"

section \<open>hexToBytes\<close>

text \<open>
  \<^verbatim>\<open>new Uint8Array(hex.length / 2)\<close>: the constructor applies \<^verbatim>\<open>ToIndex\<close> to its
  argument, which truncates a fraction, so an odd-length string gets
  \<open>length hex div 2\<close> zero bytes and no error is raised. The loop
  \<^verbatim>\<open>for (i = 0; i < hex.length; i += 2) bytes[i / 2] = parseInt(hex.substr(i, 2), 16)\<close>
  then writes one byte per pair; a write past the end of a typed array is ignored, as
  \<open>xs[i := v]\<close> is in HOL.
\<close>

function hexFill :: "jsstring \<Rightarrow> nat \<Rightarrow> byte list \<Rightarrow> byte list" where
  "hexFill hex i bytes =
     (if i < length hex
      then hexFill hex (i + 2) (bytes[i div 2 := toUint8 (parseInt (substr hex i 2) 16)])
      else bytes)"
  by pat_completeness auto
termination
  by (relation "measure (\<lambda>(hex, i, bytes). length hex - i)") auto

text \<open>
  \<^verbatim>\<open>while (actualLength > 0 && bytes[actualLength - 1] === 0) actualLength--\<close>
\<close>

function stripLoop :: "byte list \<Rightarrow> nat \<Rightarrow> nat" where
  "stripLoop bytes actualLength =
     (if actualLength > 0 \<and> bytes ! (actualLength - 1) = 0
      then stripLoop bytes (actualLength - 1)
      else actualLength)"
  by pat_completeness auto
termination
  by (relation "measure (\<lambda>(bytes, actualLength). actualLength)") auto

definition stripTrailingZeros :: "byte list \<Rightarrow> byte list" where
  \<comment> \<open>the second half of \<^verbatim>\<open>hexToBytes\<close>: \<^verbatim>\<open>bytes.slice(0, actualLength)\<close>\<close>
  "stripTrailingZeros bytes = take (stripLoop bytes (length bytes)) bytes"

definition hexToBytes :: "jsstring \<Rightarrow> byte list" where
  "hexToBytes hex =
     (let bytes = hexFill hex 0 (replicate (length hex div 2) 0)
      in stripTrailingZeros bytes)"

section \<open>Regular expressions of the Locator\<close>

text \<open>
  The regular expressions of \<^verbatim>\<open>extractSignatures\<close> are sequences of items: one character of
  a class, a greedy \<^verbatim>\<open>*\<close> or \<^verbatim>\<open>+\<close> or \<^verbatim>\<open>{n}\<close> over a class, the two ends of a capture
  group, and the word boundary \<^verbatim>\<open>\b\<close>. No group is nested or repeated.

  \<^verbatim>\<open>\s\<close> is JavaScript's white space and line terminators, \<^verbatim>\<open>\d\<close> is \<^verbatim>\<open>[0-9]\<close>, a word
  character is \<^verbatim>\<open>[A-Za-z0-9_]\<close> (the expressions have neither the \<^verbatim>\<open>i\<close> nor the \<^verbatim>\<open>u\<close>
  flag).
\<close>

definition isSpace :: "nat \<Rightarrow> bool" where
  "isSpace c = ((9 \<le> c \<and> c \<le> 13) \<or> c = 32 \<or> c = 160 \<or> c = 5760
     \<or> (8192 \<le> c \<and> c \<le> 8202) \<or> c = 8232 \<or> c = 8233 \<or> c = 8239 \<or> c = 8287
     \<or> c = 12288 \<or> c = 65279)"

definition isWordChar :: "nat \<Rightarrow> bool" where
  "isWordChar c = ((48 \<le> c \<and> c \<le> 57) \<or> (65 \<le> c \<and> c \<le> 90) \<or> (97 \<le> c \<and> c \<le> 122) \<or> c = 95)"

datatype cls = Lit nat | Space | Digit | Hex | NotCh nat

fun inCls :: "cls \<Rightarrow> nat \<Rightarrow> bool" where
  "inCls (Lit a) c = (c = a)"
| "inCls Space c = isSpace c"
| "inCls Digit c = isDigit c"
| "inCls Hex c = isHexDigit c"
| "inCls (NotCh a) c = (c \<noteq> a)"

datatype item = One cls | Star cls | Plus cls | Rep nat cls | GOpen | GClose | WordB

definition lits :: "string \<Rightarrow> item list" where
  "lits s = map (\<lambda>c. One (Lit (of_char c))) s"

definition pushChar :: "jsstring option \<Rightarrow> nat \<Rightarrow> jsstring option" where
  \<comment> \<open>a consumed character joins the capture group that is open, if one is\<close>
  "pushChar cur x = (case cur of None \<Rightarrow> None | Some g \<Rightarrow> Some (g @ [x]))"

definition wordBefore :: "nat option \<Rightarrow> bool" where
  "wordBefore prev = (case prev of None \<Rightarrow> False | Some p \<Rightarrow> isWordChar p)"

definition wordAfter :: "jsstring \<Rightarrow> bool" where
  "wordAfter s = (case s of [] \<Rightarrow> False | x # xs \<Rightarrow> isWordChar x)"

text \<open>
  The backtracking matcher, at one start position: \<open>prev\<close> is the character before the
  current position, \<open>cur\<close> the text of the open capture group, \<open>caps\<close> the closed groups
  in order, \<open>s\<close> the input from the current position on. A greedy quantifier first takes
  one more character and falls back to the rest of the expression when that fails, which
  is the order in which a JavaScript engine tries the alternatives. The result is the
  input left after the match and the captures.
\<close>

fun matchItems :: "item list \<Rightarrow> nat option \<Rightarrow> jsstring option \<Rightarrow> jsstring list \<Rightarrow> jsstring
    \<Rightarrow> (jsstring \<times> jsstring list) option" where
  "matchItems [] prev cur caps s = Some (s, caps)"
| "matchItems (One c # r) prev cur caps [] = None"
| "matchItems (One c # r) prev cur caps (x # xs) =
     (if inCls c x then matchItems r (Some x) (pushChar cur x) caps xs else None)"
| "matchItems (Star c # r) prev cur caps [] = matchItems r prev cur caps []"
| "matchItems (Star c # r) prev cur caps (x # xs) =
     (if inCls c x
      then (case matchItems (Star c # r) (Some x) (pushChar cur x) caps xs of
              Some res \<Rightarrow> Some res
            | None \<Rightarrow> matchItems r prev cur caps (x # xs))
      else matchItems r prev cur caps (x # xs))"
| "matchItems (Plus c # r) prev cur caps [] = None"
| "matchItems (Plus c # r) prev cur caps (x # xs) =
     (if inCls c x then matchItems (Star c # r) (Some x) (pushChar cur x) caps xs else None)"
| "matchItems (Rep 0 c # r) prev cur caps s = matchItems r prev cur caps s"
| "matchItems (Rep (Suc n) c # r) prev cur caps [] = None"
| "matchItems (Rep (Suc n) c # r) prev cur caps (x # xs) =
     (if inCls c x then matchItems (Rep n c # r) (Some x) (pushChar cur x) caps xs else None)"
| "matchItems (GOpen # r) prev cur caps s = matchItems r prev (Some []) caps s"
| "matchItems (GClose # r) prev cur caps s =
     matchItems r prev None (caps @ [case cur of None \<Rightarrow> [] | Some g \<Rightarrow> g]) s"
| "matchItems (WordB # r) prev cur caps s =
     (if wordBefore prev \<noteq> wordAfter s then matchItems r prev cur caps s else None)"

text \<open>
  The leftmost match: the start positions are tried from left to right. The result is
  the index of the match, the index of its end and the captures; \<open>i\<close> is the index of the
  first character of \<open>s\<close> in the whole string.
\<close>

fun searchFrom :: "item list \<Rightarrow> nat option \<Rightarrow> nat \<Rightarrow> jsstring
    \<Rightarrow> (nat \<times> nat \<times> jsstring list) option" where
  "searchFrom re prev i [] =
     (case matchItems re prev None [] [] of
        Some (rest, caps) \<Rightarrow> Some (i, i, caps)
      | None \<Rightarrow> None)"
| "searchFrom re prev i (x # xs) =
     (case matchItems re prev None [] (x # xs) of
        Some (rest, caps) \<Rightarrow> Some (i, i + (length (x # xs) - length rest), caps)
      | None \<Rightarrow> searchFrom re (Some x) (Suc i) xs)"

definition charBefore :: "jsstring \<Rightarrow> nat \<Rightarrow> nat option" where
  "charBefore s i = (if i = 0 then None else Some (s ! (i - 1)))"

definition regexExec :: "item list \<Rightarrow> jsstring \<Rightarrow> nat \<Rightarrow> (nat \<times> nat \<times> jsstring list) option" where
  \<comment> \<open>\<^verbatim>\<open>re.exec(s)\<close> of a global expression whose \<^verbatim>\<open>lastIndex\<close> is given: the match index,
      the new \<^verbatim>\<open>lastIndex\<close> and the captures, or \<open>None\<close> for \<^verbatim>\<open>null\<close>\<close>
  "regexExec re s lastIndex =
     (if lastIndex > length s then None
      else searchFrom re (charBefore s lastIndex) lastIndex (drop lastIndex s))"

definition regexMatch :: "item list \<Rightarrow> jsstring \<Rightarrow> jsstring list option" where
  \<comment> \<open>\<^verbatim>\<open>s.match(re)\<close> of an expression without the \<^verbatim>\<open>g\<close> flag: the captures of the
      leftmost match\<close>
  "regexMatch re s = (case searchFrom re None 0 s of None \<Rightarrow> None | Some (b, e, caps) \<Rightarrow> Some caps)"

text \<open>\<^verbatim>\<open>/\/Type\s*\/Sig\b/g\<close>\<close>

definition sigRegex :: "item list" where
  "sigRegex = lits ''/Type'' @ [Star Space] @ lits ''/Sig'' @ [WordB]"

text \<open>\<^verbatim>\<open>/\/ByteRange\s*\[\s*(\d+)\s+(\d+)\s+(\d+)\s+(\d+)\s*\]/\<close>\<close>

definition byteRangeRegex :: "item list" where
  "byteRangeRegex = lits ''/ByteRange'' @ [Star Space] @ lits ''['' @ [Star Space,
     GOpen, Plus Digit, GClose, Plus Space,
     GOpen, Plus Digit, GClose, Plus Space,
     GOpen, Plus Digit, GClose, Plus Space,
     GOpen, Plus Digit, GClose, Star Space] @ lits '']''"

text \<open>\<^verbatim>\<open>/\/Contents\s*<([0-9A-Fa-f]+)>/\<close>\<close>

definition contentsRegex :: "item list" where
  "contentsRegex = lits ''/Contents'' @ [Star Space] @ lits ''<'' @ [GOpen, Plus Hex, GClose] @ lits ''>''"

text \<open>
  \<^verbatim>\<open>/\/Reason\s*\(([^)]*)\)/\<close>, and the same for \<^verbatim>\<open>/Location\<close>, \<^verbatim>\<open>/ContactInfo\<close> and
  \<^verbatim>\<open>/Name\<close>
\<close>

definition textFieldRegex :: "string \<Rightarrow> item list" where
  "textFieldRegex key = lits key @ [Star Space] @ lits ''('' @ [GOpen, Star (NotCh 41), GClose] @ lits '')''"

text \<open>\<^verbatim>\<open>/\/M\s*\(D:(\d{4})(\d{2})(\d{2})(\d{2})(\d{2})(\d{2})/\<close>\<close>

definition timeRegex :: "item list" where
  "timeRegex = lits ''/M'' @ [Star Space] @ lits ''(D:'' @
     [GOpen, Rep 4 Digit, GClose, GOpen, Rep 2 Digit, GClose, GOpen, Rep 2 Digit, GClose,
      GOpen, Rep 2 Digit, GClose, GOpen, Rep 2 Digit, GClose, GOpen, Rep 2 Digit, GClose]"

section \<open>escape and decodeURIComponent\<close>

text \<open>
  \<^verbatim>\<open>escape\<close> keeps \<^verbatim>\<open>A-Z a-z 0-9 @ * _ + - . /\<close>, writes any other code unit below 256 as
  \<^verbatim>\<open>%XX\<close> and any code unit from 256 on as \<^verbatim>\<open>%uXXXX\<close>, with upper-case digits.
\<close>

definition isUnescaped :: "nat \<Rightarrow> bool" where
  "isUnescaped c = ((48 \<le> c \<and> c \<le> 57) \<or> (65 \<le> c \<and> c \<le> 90) \<or> (97 \<le> c \<and> c \<le> 122)
     \<or> c = 64 \<or> c = 42 \<or> c = 95 \<or> c = 43 \<or> c = 45 \<or> c = 46 \<or> c = 47)"

definition hexDigitUpper :: "nat \<Rightarrow> nat" where
  "hexDigitUpper d = (if d < 10 then 48 + d else 55 + d)"

fun escape :: "jsstring \<Rightarrow> jsstring" where
  "escape [] = []"
| "escape (c # cs) =
     (if isUnescaped c then [c]
      else if c < 256 then [37, hexDigitUpper (c div 16), hexDigitUpper (c mod 16)]
      else [37, 117, hexDigitUpper (c div 4096 mod 16), hexDigitUpper (c div 256 mod 16),
            hexDigitUpper (c div 16 mod 16), hexDigitUpper (c mod 16)]) @ escape cs"

text \<open>
  \<^verbatim>\<open>decodeURIComponent\<close> (the \<^verbatim>\<open>Decode\<close> operation of ECMAScript with an empty set of
  preserved escapes): a \<^verbatim>\<open>%\<close> must be followed by two hexadecimal digits; an octet below
  128 is that character; an octet from 128 on starts a UTF-8 sequence of two to four octets,
  each given as \<^verbatim>\<open>%XX\<close>, which must be the well-formed encoding of a code point and is
  replaced by the UTF-16 code units of that code point. Every violation throws a
  \<^verbatim>\<open>URIError\<close>.
\<close>

definition URIError :: js_exn where
  "URIError = JsError (str ''URI malformed'')"

definition parseHexOctet :: "jsstring \<Rightarrow> nat option" where
  "parseHexOctet s =
     (case s of
        h1 # h2 # rest \<Rightarrow>
          if isHexDigit h1 \<and> isHexDigit h2 then Some (16 * hexVal h1 + hexVal h2) else None
      | _ \<Rightarrow> None)"

definition leadingOnes :: "nat \<Rightarrow> nat" where
  \<comment> \<open>the number of leading 1 bits of an octet from 128 on; 5 stands for five or more\<close>
  "leadingOnes b = (if b < 192 then 1 else if b < 224 then 2 else if b < 240 then 3
                    else if b < 248 then 4 else 5)"

fun continuation :: "nat \<Rightarrow> jsstring \<Rightarrow> (nat list \<times> jsstring) option" where
  "continuation 0 s = Some ([], s)"
| "continuation (Suc n) [] = None"
| "continuation (Suc n) (p # rest) =
     (if p \<noteq> 37 then None
      else case parseHexOctet rest of
             None \<Rightarrow> None
           | Some b \<Rightarrow>
               (case continuation n (drop 2 rest) of
                  None \<Rightarrow> None
                | Some (bs, s') \<Rightarrow> Some (b # bs, s')))"

definition isCont :: "nat \<Rightarrow> bool" where
  "isCont b = (128 \<le> b \<and> b \<le> 191)"

definition utf8CodePoint :: "nat list \<Rightarrow> nat option" where
  \<comment> \<open>the code point of a well-formed UTF-8 sequence of two to four octets\<close>
  "utf8CodePoint octets =
     (case octets of
        [b0, b1] \<Rightarrow>
          if 194 \<le> b0 \<and> b0 \<le> 223 \<and> isCont b1
          then Some ((b0 - 192) * 64 + (b1 - 128)) else None
      | [b0, b1, b2] \<Rightarrow>
          if ((b0 = 224 \<and> 160 \<le> b1 \<and> b1 \<le> 191)
              \<or> (225 \<le> b0 \<and> b0 \<le> 236 \<and> isCont b1)
              \<or> (b0 = 237 \<and> 128 \<le> b1 \<and> b1 \<le> 159)
              \<or> (238 \<le> b0 \<and> b0 \<le> 239 \<and> isCont b1)) \<and> isCont b2
          then Some ((b0 - 224) * 4096 + (b1 - 128) * 64 + (b2 - 128)) else None
      | [b0, b1, b2, b3] \<Rightarrow>
          if ((b0 = 240 \<and> 144 \<le> b1 \<and> b1 \<le> 191)
              \<or> (241 \<le> b0 \<and> b0 \<le> 243 \<and> isCont b1)
              \<or> (b0 = 244 \<and> 128 \<le> b1 \<and> b1 \<le> 143)) \<and> isCont b2 \<and> isCont b3
          then Some ((b0 - 240) * 262144 + (b1 - 128) * 4096 + (b2 - 128) * 64 + (b3 - 128))
          else None
      | _ \<Rightarrow> None)"

definition utf16Encode :: "nat \<Rightarrow> jsstring" where
  "utf16Encode cp =
     (if cp < 65536 then [cp]
      else [55296 + (cp - 65536) div 1024, 56320 + (cp - 65536) mod 1024])"

lemma continuation_length:
  "continuation n s = Some (bs, s') \<Longrightarrow> length s' \<le> length s"
proof (induction n s arbitrary: bs s' rule: continuation.induct)
  case (1 s)
  then show ?case by simp
next
  case (2 n)
  then show ?case by simp
next
  case (3 n p rest)
  from "3.prems" obtain b bs0 where
    p: "p = 37" and b: "parseHexOctet rest = Some b"
    and c: "continuation n (drop 2 rest) = Some (bs0, s')"
    by (auto split: if_splits option.splits)
  from "3.IH" [OF _ b c] p have "length s' \<le> length (drop 2 rest)" by simp
  then show ?case by simp
qed

function decodeURIComponent :: "jsstring \<Rightarrow> js_exn + jsstring" where
  "decodeURIComponent [] = Inr []"
| "decodeURIComponent (c # cs) =
     (if c \<noteq> 37 then
        (case decodeURIComponent cs of Inl e \<Rightarrow> Inl e | Inr r \<Rightarrow> Inr (c # r))
      else
        (case parseHexOctet cs of
           None \<Rightarrow> Inl URIError
         | Some b \<Rightarrow>
             if b < 128 then
               (case decodeURIComponent (drop 2 cs) of Inl e \<Rightarrow> Inl e | Inr r \<Rightarrow> Inr (b # r))
             else if leadingOnes b = 1 \<or> leadingOnes b > 4 then Inl URIError
             else
               (case continuation (leadingOnes b - 1) (drop 2 cs) of
                  None \<Rightarrow> Inl URIError
                | Some (octets, rest) \<Rightarrow>
                    (case utf8CodePoint (b # octets) of
                       None \<Rightarrow> Inl URIError
                     | Some cp \<Rightarrow>
                         (case decodeURIComponent rest of
                            Inl e \<Rightarrow> Inl e
                          | Inr r \<Rightarrow> Inr (utf16Encode cp @ r))))))"
  by pat_completeness auto
termination
proof (relation "measure length")
  show "wf (measure length)" by simp
next
  fix c :: nat and cs :: jsstring
  show "(cs, c # cs) \<in> measure length" by simp
next
  fix c :: nat and cs :: jsstring
  show "(drop 2 cs, c # cs) \<in> measure length" by simp
next
  fix c :: nat and cs :: jsstring and b x2 octets rest
  assume "continuation (leadingOnes b - 1) (drop 2 cs) = Some x2" and "(octets, rest) = x2"
  then have "length rest \<le> length (drop 2 cs)" using continuation_length by metis
  then show "(rest, c # cs) \<in> measure length" by simp
qed

section \<open>The Signature Locator: extractSignatures\<close>

text \<open>
  \<^verbatim>\<open>new TextDecoder('latin1').decode(pdfBytes)\<close>: the label \<^verbatim>\<open>latin1\<close> names the
  windows-1252 decoder of the Encoding standard. Every byte gives one code unit; the bytes
  80 to 9F (hexadecimal) are mapped by the table below, every other byte to itself.
\<close>

definition windows1252 :: "byte \<Rightarrow> nat" where
  "windows1252 b =
     (let n = unat b in
      if 128 \<le> n \<and> n < 160
      then [8364, 129, 8218, 402, 8222, 8230, 8224, 8225, 710, 8240, 352, 8249, 338, 141, 381, 143,
            144, 8216, 8217, 8220, 8221, 8226, 8211, 8212, 732, 8482, 353, 8250, 339, 157, 382, 376]
           ! (n - 128)
      else n)"

definition decodeLatin1 :: "byte list \<Rightarrow> jsstring" where
  "decodeLatin1 bytes = map windows1252 bytes"

record ExtractedSignature =
  index :: nat
  contents :: "byte list"
  byteRange :: "int list"
  reason :: "jsstring option"
  location :: "jsstring option"
  contactInfo :: "jsstring option"
  name :: "jsstring option"
  signingTime :: "jsstring option"

definition decodeField :: "jsstring list option \<Rightarrow> js_exn + jsstring option" where
  \<comment> \<open>\<^verbatim>\<open>m ? decodeURIComponent(escape(m[1])) : undefined\<close>\<close>
  "decodeField m =
     (case m of
        None \<Rightarrow> Inr None
      | Some caps \<Rightarrow>
          (case decodeURIComponent (escape (caps ! 0)) of
             Inl e \<Rightarrow> Inl e
           | Inr r \<Rightarrow> Inr (Some r)))"

definition signingTimeOf :: "jsstring list option \<Rightarrow> jsstring option" where
  "signingTimeOf timeMatch =
     (case timeMatch of
        None \<Rightarrow> None
      | Some t \<Rightarrow> Some (t ! 0 @ str ''-'' @ t ! 1 @ str ''-'' @ t ! 2 @ str ''T'' @ t ! 3
                        @ str '':'' @ t ! 4 @ str '':'' @ t ! 5))"

text \<open>
  The body of the \<^verbatim>\<open>while\<close> loop for the marker found at \<open>matchIndex\<close>. It works on the
  counter \<^verbatim>\<open>sigIndex\<close> and the array \<^verbatim>\<open>signatures\<close>, and either completes (also by
  \<^verbatim>\<open>continue\<close>) or throws. In the object literal given to \<^verbatim>\<open>push\<close> the property
  \<^verbatim>\<open>index: sigIndex++\<close> is evaluated first, before the four \<^verbatim>\<open>decodeURIComponent\<close> calls,
  which are the only operations of the body that can throw: the counter is already
  incremented when one of them does. \<^verbatim>\<open>Math.max(0, sigMatch.index - 5000)\<close> is the
  truncating subtraction of \<open>nat\<close>.
\<close>

definition contextWindow :: "jsstring \<Rightarrow> nat \<Rightarrow> jsstring" where
  \<comment> \<open>\<^verbatim>\<open>context\<close>: from 5000 characters before the marker to 10000 after its start\<close>
  "contextWindow pdfString matchIndex =
     (let searchStart = matchIndex - 5000;
          searchEnd = min (length pdfString) (matchIndex + 10000)
      in substring pdfString searchStart searchEnd)"

definition processMarker :: "jsstring \<Rightarrow> nat \<Rightarrow> nat \<times> ExtractedSignature list
    \<Rightarrow> (js_exn + unit) \<times> nat \<times> ExtractedSignature list" where
  "processMarker pdfString matchIndex st =
     (let sigIndex = fst st; signatures = snd st;
          context = contextWindow pdfString matchIndex
      in case regexMatch byteRangeRegex context of
           None \<Rightarrow> (Inr (), sigIndex, signatures)
         | Some byteRangeMatch \<Rightarrow>
            (let byteRange = [int (parseInt (byteRangeMatch ! 0) 10),
                              int (parseInt (byteRangeMatch ! 1) 10),
                              int (parseInt (byteRangeMatch ! 2) 10),
                              int (parseInt (byteRangeMatch ! 3) 10)]
             in case regexMatch contentsRegex context of
                  None \<Rightarrow> (Inr (), sigIndex, signatures)
                | Some contentsMatch \<Rightarrow>
                   (let hexContents = contentsMatch ! 0;
                        contentsBytes = hexToBytes hexContents;
                        reasonMatch = regexMatch (textFieldRegex ''/Reason'') context;
                        locationMatch = regexMatch (textFieldRegex ''/Location'') context;
                        contactMatch = regexMatch (textFieldRegex ''/ContactInfo'') context;
                        nameMatch = regexMatch (textFieldRegex ''/Name'') context;
                        timeMatch = regexMatch timeRegex context;
                        signingTime = signingTimeOf timeMatch;
                        index0 = sigIndex;
                        sigIndex = sigIndex + 1
                    in case decodeField reasonMatch of
                         Inl e \<Rightarrow> (Inl e, sigIndex, signatures)
                       | Inr reason0 \<Rightarrow>
                      (case decodeField locationMatch of
                         Inl e \<Rightarrow> (Inl e, sigIndex, signatures)
                       | Inr location0 \<Rightarrow>
                      (case decodeField contactMatch of
                         Inl e \<Rightarrow> (Inl e, sigIndex, signatures)
                       | Inr contactInfo0 \<Rightarrow>
                      (case decodeField nameMatch of
                         Inl e \<Rightarrow> (Inl e, sigIndex, signatures)
                       | Inr name0 \<Rightarrow>
                          (Inr (), sigIndex,
                           signatures @
                             [\<lparr>index = index0, contents = contentsBytes, byteRange = byteRange,
                               reason = reason0, location = location0,
                               contactInfo = contactInfo0, name = name0,
                               signingTime = signingTime\<rparr>])))))))"

subsection \<open>Every match of the marker expression is non-empty\<close>

lemma matchItems_length:
  "matchItems re prev cur caps s = Some (rest, caps') \<Longrightarrow> length rest \<le> length s"
proof (induction re prev cur caps s arbitrary: rest caps' rule: matchItems.induct)
  case (5 c r prev cur caps x xs)
  show ?case
  proof (cases "inCls c x")
    case True
    show ?thesis
    proof (cases "matchItems (Star c # r) (Some x) (pushChar cur x) caps xs")
      case None
      with True "5.prems" have "matchItems r prev cur caps (x # xs) = Some (rest, caps')" by simp
      with "5.IH"(2) [OF True None] show ?thesis by simp
    next
      case (Some res)
      with True "5.prems" have "matchItems (Star c # r) (Some x) (pushChar cur x) caps xs = Some (rest, caps')"
        by simp
      with "5.IH"(1) [OF True] have "length rest \<le> length xs" by simp
      then show ?thesis by simp
    qed
  next
    case False
    with "5.prems" have "matchItems r prev cur caps (x # xs) = Some (rest, caps')" by simp
    with "5.IH"(3) [OF False] show ?thesis by simp
  qed
qed (fastforce split: if_splits)+

lemma matchItems_One_length:
  assumes "matchItems (One c # r) prev cur caps s = Some (rest, caps')"
  shows "length rest < length s"
proof (cases s)
  case Nil
  with assms show ?thesis by simp
next
  case (Cons x xs)
  with assms have "matchItems r (Some x) (pushChar cur x) caps xs = Some (rest, caps')"
    by (simp split: if_splits)
  then have "length rest \<le> length xs" by (rule matchItems_length)
  with Cons show ?thesis by simp
qed

lemma searchFrom_One_bounds:
  "searchFrom (One c # r) prev i s = Some (b, e, caps) \<Longrightarrow> i \<le> b \<and> b < e \<and> e \<le> i + length s"
proof (induction s arbitrary: prev i)
  case Nil
  then show ?case by simp
next
  case (Cons x xs)
  show ?case
  proof (cases "matchItems (One c # r) prev None [] (x # xs)")
    case None
    with Cons.prems have "searchFrom (One c # r) (Some x) (Suc i) xs = Some (b, e, caps)" by simp
    from Cons.IH [OF this] show ?thesis by simp
  next
    case (Some res)
    obtain rest caps0 where res: "res = (rest, caps0)" by (cases res)
    from Some res have "matchItems (One c # r) prev None [] (x # xs) = Some (rest, caps0)" by simp
    then have "length rest < length (x # xs)" by (rule matchItems_One_length)
    with Cons.prems Some res show ?thesis by auto
  qed
qed

lemma sigRegex_One: "sigRegex = One (Lit 47) # tl sigRegex"
  by (simp add: sigRegex_def lits_def)

lemma regexExec_sigRegex_advances:
  assumes "regexExec sigRegex s lastIndex = Some (b, e, caps)"
  shows "lastIndex < e \<and> e \<le> length s"
proof -
  from assms have le: "lastIndex \<le> length s"
    by (simp add: regexExec_def split: if_splits)
  from assms le have
    "searchFrom (One (Lit 47) # tl sigRegex) (charBefore s lastIndex) lastIndex (drop lastIndex s)
     = Some (b, e, caps)"
    using sigRegex_One by (simp add: regexExec_def)
  from searchFrom_One_bounds [OF this] le show ?thesis by simp
qed

subsection \<open>The loop\<close>

text \<open>
  \<^verbatim>\<open>while ((sigMatch = sigRegex.exec(pdfString)) !== null) { try { ... } catch (e) {
  console.warn('Error extracting signature at index', sigIndex, e); } }\<close>.
  The state of the loop is \<^verbatim>\<open>sigRegex.lastIndex\<close>, \<^verbatim>\<open>sigIndex\<close>, \<^verbatim>\<open>signatures\<close> and
  the lines written by \<^verbatim>\<open>console.warn\<close>, each the counter and the caught value. The
  loop ends when \<^verbatim>\<open>exec\<close> finds no further marker; it terminates because every match
  of the marker expression ends after the previous \<^verbatim>\<open>lastIndex\<close>.
\<close>

function extractLoop :: "jsstring \<Rightarrow> nat \<Rightarrow> nat \<Rightarrow> ExtractedSignature list
    \<Rightarrow> (nat \<times> js_exn) list \<Rightarrow> ExtractedSignature list \<times> (nat \<times> js_exn) list" where
  "extractLoop pdfString lastIndex sigIndex signatures warnings =
     (case regexExec sigRegex pdfString lastIndex of
        None \<Rightarrow> (signatures, warnings)
      | Some (matchIndex, lastIndex', caps) \<Rightarrow>
          (case processMarker pdfString matchIndex (sigIndex, signatures) of
             (Inr u, sigIndex', signatures') \<Rightarrow>
               extractLoop pdfString lastIndex' sigIndex' signatures' warnings
           | (Inl e, sigIndex', signatures') \<Rightarrow>
               extractLoop pdfString lastIndex' sigIndex' signatures'
                 (warnings @ [(sigIndex', e)])))"
  by pat_completeness auto
termination
proof (relation "measure (\<lambda>(pdfString, lastIndex, sigIndex, signatures, warnings).
                            Suc (length pdfString) - lastIndex)")
qed (auto dest!: regexExec_sigRegex_advances)

definition extractRun :: "byte list \<Rightarrow> ExtractedSignature list \<times> (nat \<times> js_exn) list" where
  \<comment> \<open>the signatures returned and the warnings logged\<close>
  "extractRun pdfBytes = extractLoop (decodeLatin1 pdfBytes) 0 0 [] []"

definition extractSignatures :: "byte list \<Rightarrow> ExtractedSignature list" where
  "extractSignatures pdfBytes = fst (extractRun pdfBytes)"

definition countSignatures :: "byte list \<Rightarrow> nat" where
  "countSignatures pdfBytes = length (extractSignatures pdfBytes)"

text \<open>
  A signature dictionary marker in a document: a position at which the marker expression
  \<^verbatim>\<open>/Type\<close>, optional white space, \<^verbatim>\<open>/Sig\<close>, word boundary, matches.
\<close>

definition markerAt :: "jsstring \<Rightarrow> nat \<Rightarrow> bool" where
  "markerAt s i =
     (matchItems sigRegex (charBefore s i) None [] (drop i s) \<noteq> None)"

definition hasMarker :: "byte list \<Rightarrow> bool" where
  "hasMarker pdfBytes = (\<exists>i \<le> length pdfBytes. markerAt (decodeLatin1 pdfBytes) i)"

text \<open>
  The invariant of the loop: the counter is the number of records pushed plus the number
  of exceptions caught; the indexes of the records increase strictly and stay below the
  counter; as long as no exception was caught they are \<open>0, 1, 2, ...\<close> without a gap.
\<close>

definition loopInvariant :: "nat \<Rightarrow> ExtractedSignature list \<Rightarrow> (nat \<times> js_exn) list \<Rightarrow> bool" where
  "loopInvariant i sigs w =
     (i = length sigs + length w
      \<and> sorted_wrt (<) (map index sigs)
      \<and> (\<forall>x \<in> set sigs. index x < i)
      \<and> (w = [] \<longrightarrow> map index sigs = [0..<length sigs]))"

definition bytesOf :: "string \<Rightarrow> byte list" where
  \<comment> \<open>the bytes of an ASCII text, to write documents down\<close>
  "bytesOf s = map of_char s"

section \<open>The Signature Validator: validateSignature\<close>

text \<open>
  The library \<^verbatim>\<open>node-forge\<close> is not part of the repository; what the Validator reads
  from it is data, and its two operations are parameters of the model.

  A certificate is the record of the fields the Validator reads: the attributes
  \<^verbatim>\<open>subject.getField('CN')\<close>, \<^verbatim>\<open>'O'\<close>, \<^verbatim>\<open>'E'\<close>, \<^verbatim>\<open>'emailAddress'\<close> and
  \<^verbatim>\<open>issuer.getField('CN')\<close>, \<^verbatim>\<open>'O'\<close> (\<open>None\<close> when the field is absent), the validity
  dates in milliseconds since the epoch (the value a \<^verbatim>\<open>Date\<close> is compared by; an
  invalid \<^verbatim>\<open>Date\<close>, which compares false with everything, is not modelled), the serial
  number, and the two algorithm identifiers (\<open>None\<close> when absent). \<open>subjectName\<close> and
  \<open>issuerName\<close> are the whole \<^verbatim>\<open>subject\<close> and \<^verbatim>\<open>issuer\<close> of the certificate, as the
  library compares them.
\<close>

record certificate =
  subjectCN :: "jsstring option"
  subjectO :: "jsstring option"
  subjectE :: "jsstring option"
  subjectEmailAddress :: "jsstring option"
  issuerCN :: "jsstring option"
  issuerO :: "jsstring option"
  notBefore :: int
  notAfter :: int
  serialNumber :: jsstring
  siginfoAlgorithmOid :: "jsstring option"
  signatureOid :: "jsstring option"
  subjectName :: jsstring
  issuerName :: jsstring

text \<open>
  A decoded PKCS#7 message: its certificates (the empty list also stands for a missing
  \<^verbatim>\<open>certificates\<close> property) and the \<^verbatim>\<open>type\<close> and \<^verbatim>\<open>value\<close> of each entry of
  \<^verbatim>\<open>rawCapture.authenticatedAttributes\<close> (\<open>None\<close> when there is none).
\<close>

record pkcs7 =
  certificates :: "certificate list"
  authenticatedAttributes :: "(jsstring \<times> jsstring) list option"

text \<open>
  \<open>fromDer\<close> stands for lines 137 to 139, which turn the payload bytes into the message
  or throw: \<^verbatim>\<open>String.fromCharCode.apply\<close>, \<^verbatim>\<open>forge.asn1.fromDer\<close> and
  \<^verbatim>\<open>forge.pkcs7.messageFromAsn1\<close>. \<open>isIssuer x y\<close> stands for the call
  \<^verbatim>\<open>x.isIssuer(y)\<close>, which returns a boolean or throws (the trusted certificate is an
  object of the caller's).
\<close>

record forge =
  fromDer :: "byte list \<Rightarrow> js_exn + pkcs7"
  isIssuer :: "certificate \<Rightarrow> certificate \<Rightarrow> js_exn + bool"

text \<open>
  What \<^verbatim>\<open>isIssuer\<close> is in node-forge, on two certificates of the library's:
  \<^verbatim>\<open>x.isIssuer(y)\<close> compares the issuer of \<open>x\<close> with the subject of \<open>y\<close>, so it is true when
  \<open>y\<close> is the issuer of \<open>x\<close> (the library names its parameter \<^verbatim>\<open>parent\<close>). It
  does not throw.
\<close>

definition forgeIsIssuer :: "certificate \<Rightarrow> certificate \<Rightarrow> js_exn + bool" where
  "forgeIsIssuer x y = Inr (issuerName x = subjectName y)"

datatype coverage = CoverageFull | CoveragePartial | CoverageUnknown

datatype signature_date = DateOfString jsstring | AttributeValue jsstring

record algorithm_names =
  digest :: jsstring
  signature :: jsstring

record SignatureValidationResult =
  signatureIndex :: nat
  isValid :: bool
  signerName :: jsstring
  signerOrg :: "jsstring option"
  signerEmail :: "jsstring option"
  issuer :: jsstring
  issuerOrg :: "jsstring option"
  signatureDate :: "signature_date option"
  validFrom :: int
  validTo :: int
  isExpired :: bool
  isSelfSigned :: bool
  isTrusted :: bool
  algorithms :: algorithm_names
  serialNumber :: jsstring
  reason :: "jsstring option"
  location :: "jsstring option"
  contactInfo :: "jsstring option"
  byteRange :: "int list"
  coverageStatus :: coverage
  errorMessage :: "jsstring option"

definition orElse :: "'a option \<Rightarrow> 'a \<Rightarrow> 'a" where
  \<comment> \<open>\<^verbatim>\<open>x ?? d\<close>\<close>
  "orElse x d = (case x of None \<Rightarrow> d | Some v \<Rightarrow> v)"

definition getDigestAlgorithmName :: "jsstring \<Rightarrow> jsstring" where
  \<comment> \<open>\<^verbatim>\<open>digestAlgorithms[oid] || oid || 'Unknown'\<close>, for an identifier of digits and dots\<close>
  "getDigestAlgorithmName oid =
     (case map_of
        [(str ''1.2.840.113549.2.5'', str ''MD5''),
         (str ''1.3.14.3.2.26'', str ''SHA-1''),
         (str ''2.16.840.1.101.3.4.2.1'', str ''SHA-256''),
         (str ''2.16.840.1.101.3.4.2.2'', str ''SHA-384''),
         (str ''2.16.840.1.101.3.4.2.3'', str ''SHA-512''),
         (str ''2.16.840.1.101.3.4.2.4'', str ''SHA-224'')] oid of
        Some n \<Rightarrow> n
      | None \<Rightarrow> if oid \<noteq> [] then oid else str ''Unknown'')"

definition getSignatureAlgorithmName :: "jsstring \<Rightarrow> jsstring" where
  "getSignatureAlgorithmName oid =
     (case map_of
        [(str ''1.2.840.113549.1.1.1'', str ''RSA''),
         (str ''1.2.840.113549.1.1.5'', str ''RSA with SHA-1''),
         (str ''1.2.840.113549.1.1.11'', str ''RSA with SHA-256''),
         (str ''1.2.840.113549.1.1.12'', str ''RSA with SHA-384''),
         (str ''1.2.840.113549.1.1.13'', str ''RSA with SHA-512''),
         (str ''1.2.840.10045.2.1'', str ''ECDSA''),
         (str ''1.2.840.10045.4.1'', str ''ECDSA with SHA-1''),
         (str ''1.2.840.10045.4.3.2'', str ''ECDSA with SHA-256''),
         (str ''1.2.840.10045.4.3.3'', str ''ECDSA with SHA-384''),
         (str ''1.2.840.10045.4.3.4'', str ''ECDSA with SHA-512'')] oid of
        Some n \<Rightarrow> n
      | None \<Rightarrow> if oid \<noteq> [] then oid else str ''Unknown'')"

definition initialResult :: "ExtractedSignature \<Rightarrow> SignatureValidationResult" where
  "initialResult sig =
     \<lparr>signatureIndex = index sig, isValid = False, signerName = str ''Unknown'',
      signerOrg = None, signerEmail = None, issuer = str ''Unknown'', issuerOrg = None,
      signatureDate = None, validFrom = 0, validTo = 0, isExpired = False,
      isSelfSigned = False, isTrusted = False,
      algorithms = \<lparr>digest = str ''Unknown'', signature = str ''Unknown''\<rparr>,
      serialNumber = [], reason = ExtractedSignature.reason sig,
      location = ExtractedSignature.location sig,
      contactInfo = ExtractedSignature.contactInfo sig,
      byteRange = ExtractedSignature.byteRange sig,
      coverageStatus = CoverageUnknown, errorMessage = None\<rparr>"

definition catchMessage :: "js_exn \<Rightarrow> jsstring" where
  \<comment> \<open>\<^verbatim>\<open>e instanceof Error ? e.message : 'Failed to parse signature'\<close>\<close>
  "catchMessage e = (case e of JsError m \<Rightarrow> m | JsThrown \<Rightarrow> str ''Failed to parse signature'')"

text \<open>
  The loop over \<^verbatim>\<open>p7.certificates\<close> of the trust check: it stops at the first
  certificate that the trusted certificate issued or whose serial number it shares.
\<close>

fun chainLoop :: "forge \<Rightarrow> certificate \<Rightarrow> certificate list \<Rightarrow> js_exn + bool" where
  "chainLoop f trustedCert [] = Inr False"
| "chainLoop f trustedCert (cert # certs) =
     (case isIssuer f trustedCert cert of
        Inl e \<Rightarrow> Inl e
      | Inr issued \<Rightarrow>
          if issued \<or> certificate.serialNumber cert = certificate.serialNumber trustedCert
          then Inr True
          else chainLoop f trustedCert certs)"

definition trustCheck :: "forge \<Rightarrow> certificate \<Rightarrow> certificate \<Rightarrow> certificate list \<Rightarrow> js_exn + bool" where
  \<comment> \<open>the body of the inner \<^verbatim>\<open>try\<close>: the value assigned to \<^verbatim>\<open>isTrusted\<close>, or what was thrown\<close>
  "trustCheck f trustedCert signerCert certs =
     (case isIssuer f trustedCert signerCert of
        Inl e \<Rightarrow> Inl e
      | Inr isTrustedIssuer \<Rightarrow>
          (let isSameCert = (certificate.serialNumber signerCert = certificate.serialNumber trustedCert)
           in case chainLoop f trustedCert certs of
                Inl e \<Rightarrow> Inl e
              | Inr chainTrusted \<Rightarrow> Inr (isTrustedIssuer \<or> isSameCert \<or> chainTrusted)))"

definition signingTimeAttribute :: "pkcs7 \<Rightarrow> signature_date option" where
  \<comment> \<open>the first authenticated attribute whose type is \<^verbatim>\<open>forge.pki.oids.signingTime\<close>\<close>
  "signingTimeAttribute p7 =
     (case authenticatedAttributes p7 of
        None \<Rightarrow> None
      | Some attrs \<Rightarrow>
          (case filter (\<lambda>a. fst a = str ''1.2.840.113549.1.9.5'') attrs of
             [] \<Rightarrow> None
           | a # rest \<Rightarrow> Some (AttributeValue (snd a))))"

definition checkCoverage :: "ExtractedSignature \<Rightarrow> byte list \<Rightarrow> SignatureValidationResult
    \<Rightarrow> SignatureValidationResult" where
  \<comment> \<open>lines 222 to 233: \<^verbatim>\<open>coverageStatus\<close> keeps its value unless one of the two tests holds\<close>
  "checkCoverage sig pdfBytes result =
     (if length (ExtractedSignature.byteRange sig) = 4 then
        (let start2 = ExtractedSignature.byteRange sig ! 2;
             len2 = ExtractedSignature.byteRange sig ! 3;
             expectedEnd = start2 + len2
         in if expectedEnd = int (length pdfBytes) then result\<lparr>coverageStatus := CoverageFull\<rparr>
            else if expectedEnd < int (length pdfBytes) then result\<lparr>coverageStatus := CoveragePartial\<rparr>
            else result)
      else result)"

definition signerInfo :: "certificate \<Rightarrow> SignatureValidationResult \<Rightarrow> SignatureValidationResult" where
  \<comment> \<open>lines 151 to 164\<close>
  "signerInfo signerCert result =
     result\<lparr>signerName := orElse (subjectCN signerCert) (str ''Unknown''),
            signerOrg := subjectO signerCert,
            signerEmail := (case subjectE signerCert of
                              Some v \<Rightarrow> Some v
                            | None \<Rightarrow> subjectEmailAddress signerCert),
            issuer := orElse (issuerCN signerCert) (str ''Unknown''),
            issuerOrg := issuerO signerCert,
            validFrom := notBefore signerCert,
            validTo := notAfter signerCert,
            serialNumber := certificate.serialNumber signerCert\<rparr>"

definition checkExpired :: "int \<Rightarrow> SignatureValidationResult \<Rightarrow> SignatureValidationResult" where
  \<comment> \<open>lines 167 and 168; \<open>now\<close> is the value of \<^verbatim>\<open>new Date()\<close> in milliseconds since the epoch\<close>
  "checkExpired now result = result\<lparr>isExpired := (now > validTo result \<or> now < validFrom result)\<rparr>"

definition checkTrust :: "forge \<Rightarrow> certificate option \<Rightarrow> certificate \<Rightarrow> certificate list
    \<Rightarrow> SignatureValidationResult \<Rightarrow> SignatureValidationResult" where
  \<comment> \<open>lines 174 to 195\<close>
  "checkTrust f trustedCert signerCert certs result =
     (case trustedCert of
        None \<Rightarrow> result
      | Some t \<Rightarrow>
          (case trustCheck f t signerCert certs of
             Inl e \<Rightarrow> result\<lparr>isTrusted := False\<rparr>
           | Inr trusted \<Rightarrow> result\<lparr>isTrusted := trusted\<rparr>))"

definition algorithmInfo :: "certificate \<Rightarrow> SignatureValidationResult \<Rightarrow> SignatureValidationResult" where
  \<comment> \<open>lines 198 to 201\<close>
  "algorithmInfo signerCert result =
     result\<lparr>algorithms :=
       \<lparr>digest = getDigestAlgorithmName (orElse (siginfoAlgorithmOid signerCert) []),
        signature = getSignatureAlgorithmName (orElse (signatureOid signerCert) [])\<rparr>\<rparr>"

definition signingDate :: "ExtractedSignature \<Rightarrow> pkcs7 \<Rightarrow> SignatureValidationResult
    \<Rightarrow> SignatureValidationResult" where
  \<comment> \<open>lines 204 to 220; an empty \<^verbatim>\<open>signingTime\<close> is falsy\<close>
  "signingDate sig p7 result =
     (if signingTime sig \<noteq> None \<and> signingTime sig \<noteq> Some []
      then result\<lparr>signatureDate := Some (DateOfString (orElse (signingTime sig) []))\<rparr>
      else (case signingTimeAttribute p7 of
              None \<Rightarrow> result
            | Some d \<Rightarrow> result\<lparr>signatureDate := Some d\<rparr>))"

text \<open>
  Each \<^verbatim>\<open>case\<close> on a sum below is a call that can throw inside the outer \<^verbatim>\<open>try\<close>; the
  \<^verbatim>\<open>catch\<close> stores the message in the result as it stands at that point.
\<close>

definition validateSignature :: "forge \<Rightarrow> int \<Rightarrow> ExtractedSignature \<Rightarrow> byte list
    \<Rightarrow> certificate option \<Rightarrow> SignatureValidationResult" where
  "validateSignature f now sig pdfBytes trustedCert =
     (let result = initialResult sig in
      case fromDer f (contents sig) of
        Inl e \<Rightarrow> result\<lparr>errorMessage := Some (catchMessage e)\<rparr>
      | Inr p7 \<Rightarrow>
          (case certificates p7 of
             [] \<Rightarrow> result\<lparr>errorMessage := Some (str ''No certificates found in signature'')\<rparr>
           | signerCert # others \<Rightarrow>
               (let result = signerInfo signerCert result;
                    result = checkExpired now result
                in case isIssuer f signerCert signerCert of
                     Inl e \<Rightarrow> result\<lparr>errorMessage := Some (catchMessage e)\<rparr>
                   | Inr selfSigned \<Rightarrow>
                       (let result = result\<lparr>isSelfSigned := selfSigned\<rparr>;
                            result = checkTrust f trustedCert signerCert (certificates p7) result;
                            result = algorithmInfo signerCert result;
                            result = signingDate sig p7 result;
                            result = checkCoverage sig pdfBytes result
                        in result\<lparr>isValid := True\<rparr>))))"

section \<open>Batch orchestration\<close>

text \<open>
  Each call of \<^verbatim>\<open>validateSignature\<close> reads the clock itself: \<open>clock k\<close> is the time
  read by the call for the \<open>k\<close>-th extracted signature.
\<close>

definition validatePdfSignatures :: "forge \<Rightarrow> (nat \<Rightarrow> int) \<Rightarrow> byte list \<Rightarrow> certificate option
    \<Rightarrow> SignatureValidationResult list" where
  \<comment> \<open>the value the returned promise resolves to\<close>
  "validatePdfSignatures f clock pdfBytes trustedCert =
     map (\<lambda>(k, sig). validateSignature f (clock k) sig pdfBytes trustedCert)
       (enumerate 0 (extractSignatures pdfBytes))"

section \<open>The certificate relay (cors-proxy-worker.js)\<close>

text \<open>
  The patterns of the relay carry the \<^verbatim>\<open>i\<close> flag and no \<^verbatim>\<open>u\<close> flag: a letter of the
  pattern matches its two ASCII cases and nothing else. \<^verbatim>\<open>$\<close> is the end of the input.
\<close>

definition toUpperAscii :: "nat \<Rightarrow> nat" where
  "toUpperAscii c = (if 97 \<le> c \<and> c \<le> 122 then c - 32 else c)"

definition startsWith :: "jsstring \<Rightarrow> jsstring \<Rightarrow> bool" where
  "startsWith s p = (take (length p) s = p)"

text \<open>\<^verbatim>\<open>s.includes(sub)\<close>\<close>

fun includesStr :: "jsstring \<Rightarrow> jsstring \<Rightarrow> bool" where
  "includesStr [] sub = (sub = [])"
| "includesStr (x # xs) sub = (startsWith (x # xs) sub \<or> includesStr xs sub)"

definition endsWithCI :: "jsstring \<Rightarrow> string \<Rightarrow> bool" where
  \<comment> \<open>\<^verbatim>\<open>/p$/i.test(s)\<close> for a literal \<open>p\<close>\<close>
  "endsWithCI s p =
     (length p \<le> length s
      \<and> map toUpperAscii (drop (length s - length p) s) = map toUpperAscii (str p))"

definition includesCI :: "jsstring \<Rightarrow> string \<Rightarrow> bool" where
  \<comment> \<open>\<^verbatim>\<open>/p/i.test(s)\<close> for a literal \<open>p\<close>\<close>
  "includesCI s p = includesStr (map toUpperAscii s) (map toUpperAscii (str p))"

definition matchesAllowedPattern :: "jsstring \<Rightarrow> bool" where
  \<comment> \<open>\<^verbatim>\<open>ALLOWED_PATTERNS.some(pattern => pattern.test(urlString))\<close>\<close>
  "matchesAllowedPattern urlString =
     (endsWithCI urlString ''.crt'' \<or> endsWithCI urlString ''.cer'' \<or> endsWithCI urlString ''.pem''
      \<or> includesCI urlString ''/certs/'' \<or> includesCI urlString ''/ocsp''
      \<or> includesCI urlString ''/crl'' \<or> includesCI urlString ''caIssuers'')"

definition ALLOWED_ORIGINS :: "jsstring list" where
  "ALLOWED_ORIGINS = [str ''https://www.Wrapdf.com'', str ''https://Wrapdf.com'']"

definition BLOCKED_DOMAINS :: "jsstring list" where
  "BLOCKED_DOMAINS = [str ''localhost'', str ''127.0.0.1'', str ''0.0.0.0'']"

definition dropTrailingSlash :: "jsstring \<Rightarrow> jsstring" where
  \<comment> \<open>\<^verbatim>\<open>allowed.replace(/\/$/, '')\<close>\<close>
  "dropTrailingSlash s = (if s \<noteq> [] \<and> last s = 47 then butlast s else s)"

definition isAllowedOrigin :: "jsstring option \<Rightarrow> bool" where
  "isAllowedOrigin origin =
     (case origin of
        None \<Rightarrow> False
      | Some orig \<Rightarrow>
          if orig = [] then False
          else list_ex (\<lambda>allowed. startsWith orig (dropTrailingSlash allowed)) ALLOWED_ORIGINS)"

text \<open>
  \<^verbatim>\<open>new URL(urlString)\<close> is the URL parser of the platform: a parameter of the model,
  \<open>None\<close> when it throws, else the two components the relay reads.
\<close>

record url =
  protocol :: jsstring
  hostname :: jsstring

definition isPrivateHostname :: "jsstring \<Rightarrow> bool" where
  \<comment> \<open>\<^verbatim>\<open>/^10\./\<close>, \<^verbatim>\<open>/^172\.(1[6-9]|2[0-9]|3[0-1])\./\<close> or \<^verbatim>\<open>/^192\.168\./\<close>\<close>
  "isPrivateHostname h =
     (startsWith h (str ''10.'')
      \<or> (startsWith h (str ''172.'') \<and> 7 \<le> length h \<and> h ! 6 = 46
          \<and> ((h ! 4 = 49 \<and> 54 \<le> h ! 5 \<and> h ! 5 \<le> 57)
              \<or> (h ! 4 = 50 \<and> 48 \<le> h ! 5 \<and> h ! 5 \<le> 57)
              \<or> (h ! 4 = 51 \<and> 48 \<le> h ! 5 \<and> h ! 5 \<le> 49)))
      \<or> startsWith h (str ''192.168.''))"

definition isValidCertificateUrl :: "(jsstring \<Rightarrow> url option) \<Rightarrow> jsstring \<Rightarrow> bool" where
  "isValidCertificateUrl parseURL urlString =
     (case parseURL urlString of
        None \<Rightarrow> False
      | Some u \<Rightarrow>
          if protocol u \<noteq> str ''http:'' \<and> protocol u \<noteq> str ''https:'' then False
          else if list_ex (\<lambda>domain. includesStr (hostname u) domain) BLOCKED_DOMAINS then False
          else if isPrivateHostname (hostname u) then False
          else matchesAllowedPattern urlString)"

datatype json = JString jsstring | JNumber nat

datatype response_body = NoBody | TextBody jsstring | JsonBody "(string \<times> json) list" | BytesBody "byte list"

record response =
  status :: nat
  headers :: "(string \<times> jsstring) list"
  body :: response_body

text \<open>
  What the relay reads of the response of the upstream \<^verbatim>\<open>fetch\<close>; \<open>arrayBuffer\<close> is
  the outcome of reading the body.
\<close>

record upstream_response =
  ok :: bool
  upstreamStatus :: nat
  statusText :: jsstring
  contentType :: "jsstring option"
  arrayBuffer :: "js_exn + byte list"

definition corsHeaders :: "jsstring option \<Rightarrow> (string \<times> jsstring) list" where
  "corsHeaders origin =
     [(''Access-Control-Allow-Origin'',
         (case origin of None \<Rightarrow> str ''*'' | Some orig \<Rightarrow> if orig = [] then str ''*'' else orig)),
      (''Access-Control-Allow-Methods'', str ''GET, OPTIONS''),
      (''Access-Control-Allow-Headers'', str ''Content-Type''),
      (''Access-Control-Max-Age'', str ''86400'')]"

record request =
  requestMethod :: jsstring
  originHeader :: "jsstring option"
  urlParam :: "jsstring option"

definition handleOptions :: "request \<Rightarrow> response" where
  "handleOptions req = \<lparr>status = 204, headers = corsHeaders (originHeader req), body = NoBody\<rparr>"

text \<open>
  \<^verbatim>\<open>new Response(body, {status})\<close> with a body throws a \<^verbatim>\<open>RangeError\<close> for a status outside
  200 to 599 and a \<^verbatim>\<open>TypeError\<close> for a status that allows no body. The relay builds one
  response from a status it does not choose: the one that mirrors a failed upstream fetch.
\<close>

definition newResponse :: "response_body \<Rightarrow> nat \<Rightarrow> (string \<times> jsstring) list \<Rightarrow> js_exn + response" where
  "newResponse b st hs =
     (if st < 200 \<or> 599 < st then Inl (JsError (str ''Invalid status code''))
      else if st = 204 \<or> st = 205 \<or> st = 304 then Inl (JsError (str ''Invalid response status code''))
      else Inr \<lparr>status = st, headers = hs, body = b\<rparr>)"

function showNat :: "nat \<Rightarrow> jsstring" where
  "showNat n = (if n < 10 then [48 + n] else showNat (n div 10) @ [48 + n mod 10])"
  by pat_completeness auto
termination
  by (relation "measure id") auto

definition proxyError :: "jsstring option \<Rightarrow> js_exn \<Rightarrow> response" where
  \<comment> \<open>the \<^verbatim>\<open>catch\<close> of the relay: \<^verbatim>\<open>error.message\<close> is absent for a thrown value that is no
      \<^verbatim>\<open>Error\<close>\<close>
  "proxyError origin e =
     \<lparr>status = 500,
      headers = corsHeaders origin @ [(''Content-Type'', str ''application/json'')],
      body = JsonBody ((''error'', JString (str ''Proxy error''))
               # (case e of JsError m \<Rightarrow> [(''message'', JString m)] | JsThrown \<Rightarrow> []))\<rparr>"

definition disallowedBody :: response_body where
  "disallowedBody =
     JsonBody [(''error'', JString (str ''Invalid or disallowed URL'')),
               (''message'', JString (str
                 ''Only certificate-related URLs are allowed (*.crt, *.cer, *.pem, /certs/, /ocsp, /crl)''))]"

text \<open>
  The \<^verbatim>\<open>fetch\<close> handler of the relay. \<open>upstream\<close> is the platform's \<^verbatim>\<open>fetch\<close>. The result
  is the response and the list of the URLs that were fetched.
\<close>

definition fetchHandler :: "(jsstring \<Rightarrow> url option) \<Rightarrow> (jsstring \<Rightarrow> js_exn + upstream_response)
    \<Rightarrow> request \<Rightarrow> response \<times> jsstring list" where
  "fetchHandler parseURL upstream req =
     (let origin = originHeader req in
      if requestMethod req = str ''OPTIONS'' then (handleOptions req, [])
      else if \<not> isAllowedOrigin origin then
        (\<lparr>status = 403, headers = [(''Content-Type'', str ''application/json'')],
          body = JsonBody [(''error'', JString (str ''Forbidden'')),
                           (''message'', JString (str ''This proxy only accepts requests from Wrapdf.com''))]\<rparr>,
         [])
      else if requestMethod req \<noteq> str ''GET'' then
        (\<lparr>status = 405, headers = corsHeaders origin, body = TextBody (str ''Method not allowed'')\<rparr>, [])
      else
        (case urlParam req of
           None \<Rightarrow>
             (\<lparr>status = 400,
               headers = corsHeaders origin @ [(''Content-Type'', str ''application/json'')],
               body = JsonBody [(''error'', JString (str ''Missing url parameter'')),
                                (''usage'', JString (str ''GET /?url=<certificate_url>''))]\<rparr>,
              [])
         | Some targetUrl \<Rightarrow>
             if targetUrl = [] then
               (\<lparr>status = 400,
                 headers = corsHeaders origin @ [(''Content-Type'', str ''application/json'')],
                 body = JsonBody [(''error'', JString (str ''Missing url parameter'')),
                                  (''usage'', JString (str ''GET /?url=<certificate_url>''))]\<rparr>,
                [])
             else if \<not> isValidCertificateUrl parseURL targetUrl then
               (\<lparr>status = 403,
                 headers = corsHeaders origin @ [(''Content-Type'', str ''application/json'')],
                 body = disallowedBody\<rparr>,
                [])
             else
               (case upstream targetUrl of
                  Inl e \<Rightarrow> (proxyError origin e, [targetUrl])
                | Inr resp \<Rightarrow>
                    if \<not> ok resp then
                      (case newResponse
                              (JsonBody [(''error'', JString (str ''Failed to fetch certificate'')),
                                         (''status'', JNumber (upstreamStatus resp)),
                                         (''statusText'', JString (statusText resp))])
                              (upstreamStatus resp)
                              (corsHeaders origin @ [(''Content-Type'', str ''application/json'')]) of
                         Inl e \<Rightarrow> (proxyError origin e, [targetUrl])
                       | Inr r \<Rightarrow> (r, [targetUrl]))
                    else
                      (case arrayBuffer resp of
                         Inl e \<Rightarrow> (proxyError origin e, [targetUrl])
                       | Inr certData \<Rightarrow>
                           (\<lparr>status = 200,
                             headers = corsHeaders origin @
                               [(''Content-Type'',
                                   (case contentType resp of
                                      None \<Rightarrow> str ''application/x-x509-ca-cert''
                                    | Some ct \<Rightarrow> if ct = [] then str ''application/x-x509-ca-cert'' else ct)),
                                (''Content-Length'', showNat (length certData)),
                                (''Cache-Control'', str ''public, max-age=86400'')],
                             body = BytesBody certData\<rparr>,
                            [targetUrl])))))"

section \<open>Sample inputs\<close>

text \<open>
  Three certificates, a library and a signature record on which the theorems below are
  instantiated: the certificate of a signer, the certificate of the authority that issued
  it, and a certificate that the signer issued. The sample library fails to decode the
  empty payload and decodes any other payload to a message with the signer's certificate;
  its \<^verbatim>\<open>isIssuer\<close> is node-forge's.
\<close>

definition sampleCert :: certificate where
  "sampleCert =
     \<lparr>subjectCN = Some (str ''Alice''), subjectO = None, subjectE = None,
      subjectEmailAddress = None, issuerCN = Some (str ''Test CA''), issuerO = None,
      notBefore = 1000, notAfter = 2000, serialNumber = str ''01'',
      siginfoAlgorithmOid = None, signatureOid = Some (str ''1.2.840.113549.1.1.11''),
      subjectName = str ''CN=Alice'', issuerName = str ''CN=Test CA''\<rparr>"

definition sampleAuthority :: certificate where
  "sampleAuthority =
     \<lparr>subjectCN = Some (str ''Test CA''), subjectO = None, subjectE = None,
      subjectEmailAddress = None, issuerCN = Some (str ''Test CA''), issuerO = None,
      notBefore = 0, notAfter = 9000, serialNumber = str ''02'',
      siginfoAlgorithmOid = None, signatureOid = Some (str ''1.2.840.113549.1.1.11''),
      subjectName = str ''CN=Test CA'', issuerName = str ''CN=Test CA''\<rparr>"

definition sampleChild :: certificate where
  "sampleChild =
     \<lparr>subjectCN = Some (str ''Bob''), subjectO = None, subjectE = None,
      subjectEmailAddress = None, issuerCN = Some (str ''Alice''), issuerO = None,
      notBefore = 1000, notAfter = 2000, serialNumber = str ''03'',
      siginfoAlgorithmOid = None, signatureOid = Some (str ''1.2.840.113549.1.1.11''),
      subjectName = str ''CN=Bob'', issuerName = str ''CN=Alice''\<rparr>"

definition sampleForge :: forge where
  "sampleForge =
     \<lparr>fromDer = (\<lambda>bytes. if bytes = [] then Inl (JsError (str ''Too few bytes to parse DER.''))
                          else Inr \<lparr>certificates = [sampleCert], authenticatedAttributes = None\<rparr>),
      isIssuer = forgeIsIssuer\<rparr>"

definition sampleSignature :: "byte list \<Rightarrow> ExtractedSignature" where
  "sampleSignature payload =
     \<lparr>index = 0, contents = payload, byteRange = [0, 100, 200, 50], reason = None,
      location = None, contactInfo = None, name = None, signingTime = None\<rparr>"

text \<open>
  Sample documents: one without a marker; a first dictionary without byte range followed
  closely by a complete one; a dictionary whose payload has an odd number of digits; a
  dictionary whose \<^verbatim>\<open>/Reason\<close> is the single byte E9 (no well-formed UTF-8); that
  dictionary followed, 5000 spaces later, by a complete one; and a first dictionary without
  byte range followed, 10000 spaces later, by a complete one.
\<close>

definition unsignedDoc :: "byte list" where
  "unsignedDoc = bytesOf ''%PDF-1.7 /Type /Page /Sigma''"

definition nearbyDoc :: "byte list" where
  "nearbyDoc = bytesOf ''<< /Type /Sig /Contents <AB> >> << /Type /Sig /ByteRange [0 1 2 3] /Contents <CD> >>''"


definition badReasonDoc :: "byte list" where
  "badReasonDoc = bytesOf ''<< /Type /Sig /ByteRange [0 1 2 3] /Contents <AB> /Reason ('' @ [233] @ bytesOf '') >>''"

definition gapDoc :: "byte list" where
  "gapDoc = badReasonDoc @ replicate 5000 32 @ bytesOf ''<< /Type /Sig /ByteRange [4 5 6 7] /Contents <CD> >>''"

definition distantDoc :: "byte list" where
  "distantDoc = bytesOf ''<< /Type /Sig /Contents <AB> >>'' @ replicate 10000 32
                @ bytesOf ''<< /Type /Sig /ByteRange [0 1 2 3] /Contents <CD> >>''"


text \<open>
  Sample inputs of the relay: what the URL parser returns for eight URLs (it is taken to throw
  on any other string), an upstream server that answers every fetch with a one-byte body, and
  a \<^verbatim>\<open>GET\<close> request from an allowed origin.
\<close>

definition sampleParseURL :: "jsstring \<Rightarrow> url option" where
  "sampleParseURL u =
     (if u = str ''http://ca.example.com/root.crt''
        then Some \<lparr>protocol = str ''http:'', hostname = str ''ca.example.com''\<rparr>
      else if u = str ''http://ca.example.com/index.html''
        then Some \<lparr>protocol = str ''http:'', hostname = str ''ca.example.com''\<rparr>
      else if u = str ''ftp://ca.example.com/root.crt''
        then Some \<lparr>protocol = str ''ftp:'', hostname = str ''ca.example.com''\<rparr>
      else if u = str ''http://localhost/root.crt''
        then Some \<lparr>protocol = str ''http:'', hostname = str ''localhost''\<rparr>
      else if u = str ''http://127.0.0.1/root.crt''
        then Some \<lparr>protocol = str ''http:'', hostname = str ''127.0.0.1''\<rparr>
      else if u = str ''http://127.0.0.2/root.crt''
        then Some \<lparr>protocol = str ''http:'', hostname = str ''127.0.0.2''\<rparr>
      else if u = str ''http://[::1]/root.crt''
        then Some \<lparr>protocol = str ''http:'', hostname = str ''[::1]''\<rparr>
      else if u = str ''http://169.254.169.254/root.crt''
        then Some \<lparr>protocol = str ''http:'', hostname = str ''169.254.169.254''\<rparr>
      else None)"

definition sampleUpstream :: "jsstring \<Rightarrow> js_exn + upstream_response" where
  "sampleUpstream u =
     Inr \<lparr>ok = True, upstreamStatus = 200, statusText = str ''OK'', contentType = None,
          arrayBuffer = Inr [48]\<rparr>"

definition sampleRequest :: "jsstring option \<Rightarrow> request" where
  "sampleRequest u =
     \<lparr>requestMethod = str ''GET'', originHeader = Some (str ''https://Wrapdf.com''), urlParam = u\<rparr>"

section \<open>Properties of the trailing-zero stripping\<close>

declare stripLoop.simps [simp del]
declare hexFill.simps [simp del]

lemma stripLoop_le: "stripLoop bytes n \<le> n"
proof (induction bytes n rule: stripLoop.induct)
  case (1 bytes n)
  show ?case
  proof (cases "n > 0 \<and> bytes ! (n - 1) = 0")
    case True
    then have "stripLoop bytes n = stripLoop bytes (n - 1)"
      by (subst stripLoop.simps) simp
    with 1 True show ?thesis by fastforce
  next
    case False
    then show ?thesis by (subst stripLoop.simps) auto
  qed
qed

lemma stripLoop_last:
  "stripLoop bytes n = 0 \<or> bytes ! (stripLoop bytes n - 1) \<noteq> 0"
proof (induction bytes n rule: stripLoop.induct)
  case (1 bytes n)
  show ?case
  proof (cases "n > 0 \<and> bytes ! (n - 1) = 0")
    case True
    then have "stripLoop bytes n = stripLoop bytes (n - 1)"
      by (subst stripLoop.simps) simp
    with 1 True show ?thesis by simp
  next
    case False
    then have "stripLoop bytes n = n" by (subst stripLoop.simps) auto
    with False show ?thesis by auto
  qed
qed

lemma stripLoop_fixed:
  "n = 0 \<or> bytes ! (n - 1) \<noteq> 0 \<Longrightarrow> stripLoop bytes n = n"
  by (subst stripLoop.simps) auto

lemma stripTrailingZeros_end:
  "stripTrailingZeros bytes = [] \<or> last (stripTrailingZeros bytes) \<noteq> 0"
proof -
  let ?k = "stripLoop bytes (length bytes)"
  have le: "?k \<le> length bytes" by (rule stripLoop_le)
  show ?thesis
  proof (cases "?k = 0")
    case True
    then show ?thesis by (simp add: stripTrailingZeros_def)
  next
    case False
    then have nz: "bytes ! (?k - 1) \<noteq> 0" using stripLoop_last [of bytes "length bytes"] by simp
    have "take ?k bytes \<noteq> []" using False le by auto
    then have "last (take ?k bytes) = take ?k bytes ! (length (take ?k bytes) - 1)"
      by (rule last_conv_nth)
    also have "\<dots> = bytes ! (?k - 1)" using False le by simp
    finally show ?thesis using nz by (simp add: stripTrailingZeros_def)
  qed
qed

lemma stripTrailingZeros_stripped:
  assumes "bytes = [] \<or> last bytes \<noteq> 0"
  shows "stripTrailingZeros bytes = bytes"
proof -
  have "length bytes = 0 \<or> bytes ! (length bytes - 1) \<noteq> 0"
    using assms by (auto simp: last_conv_nth)
  then have "stripLoop bytes (length bytes) = length bytes" by (rule stripLoop_fixed)
  then show ?thesis by (simp add: stripTrailingZeros_def)
qed

text \<open>
  C8. Stripping trailing zero bytes is idempotent: a sequence that is empty or whose last
  byte is not zero is returned unchanged, stripping twice is stripping once, and neither
  the stripped sequence nor the result of \<^verbatim>\<open>hexToBytes\<close> ends in a zero byte.
\<close>

theorem strip_trailing_zeros_idempotent:
  "(bytes = [] \<or> last bytes \<noteq> 0 \<longrightarrow> stripTrailingZeros bytes = bytes)
   \<and> stripTrailingZeros (stripTrailingZeros bytes) = stripTrailingZeros bytes
   \<and> (stripTrailingZeros bytes = [] \<or> last (stripTrailingZeros bytes) \<noteq> 0)
   \<and> (hexToBytes hex = [] \<or> last (hexToBytes hex) \<noteq> 0)"
proof (intro conjI impI)
  assume "bytes = [] \<or> last bytes \<noteq> 0"
  then show "stripTrailingZeros bytes = bytes" by (rule stripTrailingZeros_stripped)
next
  show "stripTrailingZeros (stripTrailingZeros bytes) = stripTrailingZeros bytes"
    by (rule stripTrailingZeros_stripped) (rule stripTrailingZeros_end)
next
  show "stripTrailingZeros bytes = [] \<or> last (stripTrailingZeros bytes) \<noteq> 0"
    by (rule stripTrailingZeros_end)
next
  show "hexToBytes hex = [] \<or> last (hexToBytes hex) \<noteq> 0"
    unfolding hexToBytes_def Let_def by (rule stripTrailingZeros_end)
qed

theorem strip_trailing_zeros_idempotent_witness:
  "stripTrailingZeros [1, 2 :: byte] = [1, 2]
   \<and> stripTrailingZeros (stripTrailingZeros [1, 0, 2, 0, 0]) = stripTrailingZeros [1, 0, 2, 0, 0 :: byte]
   \<and> last (stripTrailingZeros [1, 0, 2, 0, 0 :: byte]) \<noteq> 0
   \<and> last (hexToBytes (str ''0A00'')) \<noteq> 0"
proof -
  have a: "last [1, 2 :: byte] \<noteq> 0" by simp
  have b: "stripTrailingZeros [1, 0, 2, 0, 0 :: byte] = [1, 0, 2]" by code_simp
  have c: "hexToBytes (str ''0A00'') = [10]" by code_simp
  from strip_trailing_zeros_idempotent [of "[1, 2]" "str ''0A00''"] a
       strip_trailing_zeros_idempotent [of "[1, 0, 2, 0, 0]" "str ''0A00''"] b c
  show ?thesis by simp
qed
section \<open>Properties of the Locator\<close>

declare extractLoop.simps [simp del]
declare showNat.simps [simp del]

lemma extractLoop_done:
  "regexExec sigRegex s lastIndex = None \<Longrightarrow> extractLoop s lastIndex i sigs w = (sigs, w)"
  by (subst extractLoop.simps) simp

lemma extractLoop_completes:
  "regexExec sigRegex s lastIndex = Some (m, lastIndex', caps) \<Longrightarrow>
   processMarker s m (i, sigs) = (Inr u, i', sigs') \<Longrightarrow>
   extractLoop s lastIndex i sigs w = extractLoop s lastIndex' i' sigs' w"
  by (subst extractLoop.simps) simp

lemma extractLoop_throws:
  "regexExec sigRegex s lastIndex = Some (m, lastIndex', caps) \<Longrightarrow>
   processMarker s m (i, sigs) = (Inl e, i', sigs') \<Longrightarrow>
   extractLoop s lastIndex i sigs w = extractLoop s lastIndex' i' sigs' (w @ [(i', e)])"
  by (subst extractLoop.simps) simp

text \<open>
  The three outcomes of the loop body: the marker is skipped, a record with the current
  counter as index is pushed, or an exception is thrown after the counter was incremented.
\<close>

lemma processMarker_outcome:
  assumes "processMarker s m (i, sigs) = (r, i', sigs')"
  shows "(r = Inr () \<and> i' = i \<and> sigs' = sigs)
       \<or> (r = Inr () \<and> i' = Suc i \<and> (\<exists>x. sigs' = sigs @ [x] \<and> index x = i))
       \<or> ((\<exists>e. r = Inl e) \<and> i' = Suc i \<and> sigs' = sigs)"
  using assms
  by (simp add: processMarker_def Let_def split: option.splits sum.splits) auto

lemma processMarker_skips:
  assumes "regexMatch byteRangeRegex (contextWindow s m) = None
           \<or> regexMatch contentsRegex (contextWindow s m) = None"
  shows "processMarker s m st = (Inr (), st)"
  using assms by (auto simp: processMarker_def Let_def split: option.splits)


text \<open>Induction along the markers of a document.\<close>

lemma extractLoop_marker_induct [case_names Done Completes Throws]:
  assumes finished: "\<And>lastIndex i sigs w. regexExec sigRegex s lastIndex = None \<Longrightarrow> P lastIndex i sigs w"
    and completes: "\<And>lastIndex i sigs w m lastIndex' caps u i' sigs'.
        regexExec sigRegex s lastIndex = Some (m, lastIndex', caps) \<Longrightarrow>
        processMarker s m (i, sigs) = (Inr u, i', sigs') \<Longrightarrow>
        P lastIndex' i' sigs' w \<Longrightarrow> P lastIndex i sigs w"
    and throws: "\<And>lastIndex i sigs w m lastIndex' caps e i' sigs'.
        regexExec sigRegex s lastIndex = Some (m, lastIndex', caps) \<Longrightarrow>
        processMarker s m (i, sigs) = (Inl e, i', sigs') \<Longrightarrow>
        P lastIndex' i' sigs' (w @ [(i', e)]) \<Longrightarrow> P lastIndex i sigs w"
  shows "P lastIndex i sigs w"
  using assms
proof (induction s lastIndex i sigs w rule: extractLoop.induct)
  case (1 s lastIndex i sigs w)
  note fin = "1.prems"(1) and ok = "1.prems"(2) and thr = "1.prems"(3)
  show ?case
  proof (cases "regexExec sigRegex s lastIndex")
    case None
    then show ?thesis by (rule fin)
  next
    case (Some x2)
    obtain m lastIndex' caps where x2: "x2 = (m, lastIndex', caps)" by (cases x2)
    obtain r i' sigs' where pm: "processMarker s m (i, sigs) = (r, i', sigs')"
      by (cases "processMarker s m (i, sigs)")
    show ?thesis
    proof (cases r)
      case (Inl e)
      have "P lastIndex' i' sigs' (w @ [(i', e)])"
      proof (rule "1.IH"(1) [OF Some, of m "(lastIndex', caps)" lastIndex' caps r "(i', sigs')" e i' sigs'])
        show "(m, lastIndex', caps) = x2" by (simp add: x2)
        show "(r, i', sigs') = processMarker s m (i, sigs)" by (simp add: pm)
      qed (simp_all add: Inl fin, (erule (2) ok)?, (erule (2) thr)?)
      with Some x2 pm Inl show ?thesis by (auto intro: thr)
    next
      case (Inr u)
      have "P lastIndex' i' sigs' w"
      proof (rule "1.IH"(2) [OF Some, of m "(lastIndex', caps)" lastIndex' caps r "(i', sigs')" u i' sigs'])
        show "(m, lastIndex', caps) = x2" by (simp add: x2)
        show "(r, i', sigs') = processMarker s m (i, sigs)" by (simp add: pm)
      qed (simp_all add: Inr fin, (erule (2) ok)?, (erule (2) thr)?)
      with Some x2 pm Inr show ?thesis by (auto intro: ok)
    qed
  qed
qed

lemma processMarker_invariant:
  assumes "processMarker s m (i, sigs) = (r, i', sigs')" and "loopInvariant i sigs w"
  shows "loopInvariant i' sigs' (case r of Inl e \<Rightarrow> w @ [(i', e)] | Inr u \<Rightarrow> w)"
proof -
  from processMarker_outcome [OF assms(1)] consider
    (skip) "r = Inr ()" "i' = i" "sigs' = sigs"
    | (push) x where "r = Inr ()" "i' = Suc i" "sigs' = sigs @ [x]" "index x = i"
    | (throw) e where "r = Inl e" "i' = Suc i" "sigs' = sigs"
    by blast
  then show ?thesis
  proof cases
    case skip
    with assms(2) show ?thesis by simp
  next
    case push
    with assms(2) show ?thesis
      by (auto simp: loopInvariant_def sorted_wrt_append less_Suc_eq)
  next
    case throw
    with assms(2) show ?thesis
      by (auto simp: loopInvariant_def less_Suc_eq)
  qed
qed

lemma extractLoop_invariant:
  "extractLoop s lastIndex i sigs w = (sigs', w') \<Longrightarrow> loopInvariant i sigs w \<Longrightarrow>
   loopInvariant (length sigs' + length w') sigs' w'"
proof (induction lastIndex i sigs w rule: extractLoop_marker_induct [where s = s])
  case (Done lastIndex i sigs w)
  then show ?case by (auto simp: extractLoop_done loopInvariant_def)
next
  case (Completes lastIndex i sigs w m lastIndex' caps u i' sigs2)
  from processMarker_invariant [OF Completes(2) Completes(5)]
  have "loopInvariant i' sigs2 w" by simp
  moreover from Completes(4) have "extractLoop s lastIndex' i' sigs2 w = (sigs', w')"
    by (simp add: extractLoop_completes [OF Completes(1) Completes(2)])
  ultimately show ?case by (rule Completes(3) [rotated])
next
  case (Throws lastIndex i sigs w m lastIndex' caps e i' sigs2)
  from processMarker_invariant [OF Throws(2) Throws(5)]
  have "loopInvariant i' sigs2 (w @ [(i', e)])" by simp
  moreover from Throws(4) have "extractLoop s lastIndex' i' sigs2 (w @ [(i', e)]) = (sigs', w')"
    by (simp add: extractLoop_throws [OF Throws(1) Throws(2)])
  ultimately show ?case by (rule Throws(3) [rotated])
qed

lemma extractRun_invariant:
  "loopInvariant (length (fst (extractRun pdfBytes)) + length (snd (extractRun pdfBytes)))
     (fst (extractRun pdfBytes)) (snd (extractRun pdfBytes))"
proof -
  obtain sigs' w' where r: "extractLoop (decodeLatin1 pdfBytes) 0 0 [] [] = (sigs', w')"
    by (cases "extractLoop (decodeLatin1 pdfBytes) 0 0 [] []")
  have "loopInvariant 0 [] []" by (simp add: loopInvariant_def)
  from extractLoop_invariant [OF r this] r show ?thesis by (simp add: extractRun_def)
qed

subsection \<open>An odd-length payload\<close>



subsection \<open>A document without markers\<close>

lemma all_from_Suc:
  fixes P :: "nat \<Rightarrow> bool"
  assumes "i \<le> n"
  shows "(P i \<and> (\<forall>k. Suc i \<le> k \<and> k \<le> n \<longrightarrow> P k)) \<longleftrightarrow> (\<forall>k. i \<le> k \<and> k \<le> n \<longrightarrow> P k)"
proof
  assume l: "P i \<and> (\<forall>k. Suc i \<le> k \<and> k \<le> n \<longrightarrow> P k)"
  show "\<forall>k. i \<le> k \<and> k \<le> n \<longrightarrow> P k"
  proof (intro allI impI)
    fix k
    assume k: "i \<le> k \<and> k \<le> n"
    show "P k"
    proof (cases "k = i")
      case True
      with l show ?thesis by simp
    next
      case False
      with k have "Suc i \<le> k \<and> k \<le> n" by simp
      with l show ?thesis by simp
    qed
  qed
next
  assume r: "\<forall>k. i \<le> k \<and> k \<le> n \<longrightarrow> P k"
  with assms have "P i" by simp
  moreover from r have "\<forall>k. Suc i \<le> k \<and> k \<le> n \<longrightarrow> P k" by simp
  ultimately show "P i \<and> (\<forall>k. Suc i \<le> k \<and> k \<le> n \<longrightarrow> P k)" by simp
qed

lemma searchFrom_None_iff:
  "i \<le> length s \<Longrightarrow>
   searchFrom re (charBefore s i) i (drop i s) = None
   \<longleftrightarrow> (\<forall>k. i \<le> k \<and> k \<le> length s \<longrightarrow> matchItems re (charBefore s k) None [] (drop k s) = None)"
proof (induction "length s - i" arbitrary: i)
  case 0
  then have i: "i = length s" by simp
  have "searchFrom re (charBefore s i) i (drop i s) = None
        \<longleftrightarrow> matchItems re (charBefore s i) None [] (drop i s) = None"
    by (simp add: i split: option.splits)
  also have "\<dots> \<longleftrightarrow> (\<forall>k. i \<le> k \<and> k \<le> length s \<longrightarrow>
                        matchItems re (charBefore s k) None [] (drop k s) = None)"
    using i by (metis le_antisym order_refl)
  finally show ?case .
next
  case (Suc n)
  then have lt: "i < length s" by simp
  then have d: "drop i s = s ! i # drop (Suc i) s" by (simp add: Cons_nth_drop_Suc)
  have cb: "charBefore s (Suc i) = Some (s ! i)" by (simp add: charBefore_def)
  from Suc.hyps(2) have n: "n = length s - Suc i" by simp
  from lt have le: "Suc i \<le> length s" by simp
  have "searchFrom re (charBefore s i) i (drop i s) = None
        \<longleftrightarrow> matchItems re (charBefore s i) None [] (drop i s) = None
            \<and> searchFrom re (charBefore s (Suc i)) (Suc i) (drop (Suc i) s) = None"
    by (simp add: d cb split: option.splits)
  also have "\<dots> \<longleftrightarrow> matchItems re (charBefore s i) None [] (drop i s) = None
            \<and> (\<forall>k. Suc i \<le> k \<and> k \<le> length s \<longrightarrow>
                    matchItems re (charBefore s k) None [] (drop k s) = None)"
    by (simp only: Suc.hyps(1) [OF n le])
  also have "\<dots> \<longleftrightarrow> (\<forall>k. i \<le> k \<and> k \<le> length s \<longrightarrow>
                        matchItems re (charBefore s k) None [] (drop k s) = None)"
    using lt by (intro all_from_Suc) simp
  finally show ?case .
qed

lemma hasMarker_iff:
  "hasMarker pdfBytes \<longleftrightarrow> regexExec sigRegex (decodeLatin1 pdfBytes) 0 \<noteq> None"
proof -
  let ?s = "decodeLatin1 pdfBytes"
  have len: "length ?s = length pdfBytes" by (simp add: decodeLatin1_def)
  have "regexExec sigRegex ?s 0 = searchFrom sigRegex (charBefore ?s 0) 0 (drop 0 ?s)"
    by (simp add: regexExec_def)
  also have "\<dots> = None \<longleftrightarrow> (\<forall>k. 0 \<le> k \<and> k \<le> length ?s \<longrightarrow>
                        matchItems sigRegex (charBefore ?s k) None [] (drop k ?s) = None)"
    by (rule searchFrom_None_iff) simp
  finally have "regexExec sigRegex ?s 0 = None \<longleftrightarrow> (\<forall>k \<le> length pdfBytes. \<not> markerAt ?s k)"
    by (simp only: markerAt_def len not_not le0 simp_thms)
  then show ?thesis by (simp only: hasMarker_def not_all not_imp not_not simp_thms)
qed

lemma no_marker_no_signature:
  assumes "\<not> hasMarker pdfBytes"
  shows "extractRun pdfBytes = ([], [])"
proof -
  from assms have "regexExec sigRegex (decodeLatin1 pdfBytes) 0 = None"
    using hasMarker_iff by blast
  then show ?thesis by (simp add: extractRun_def extractLoop_done)
qed

subsection \<open>Evaluation on concrete documents\<close>

lemmas regex_eval =
  regexExec_def charBefore_def regexMatch_def sigRegex_def byteRangeRegex_def contentsRegex_def
  textFieldRegex_def timeRegex_def lits_def str_def isSpace_def isDigit_def isHexDigit_def
  pushChar_def wordBefore_def wordAfter_def isWordChar_def bytesOf_def decodeLatin1_def
  windows1252_def substring_def contextWindow_def

lemmas marker_eval =
  processMarker_def Let_def decodeField_def signingTimeOf_def parseInt_def hexVal_def


subsection \<open>The sample documents\<close>

lemma unsignedDoc_no_marker: "\<not> hasMarker unsignedDoc"
proof -
  have "regexExec sigRegex (decodeLatin1 unsignedDoc) 0 = None"
    by (simp add: unsignedDoc_def regex_eval)
  then show ?thesis by (simp only: hasMarker_iff not_not)
qed

lemma nearbyDoc_run:
  "extractRun nearbyDoc
   = ([\<lparr>index = 0, contents = [171], byteRange = [0, 1, 2, 3], reason = None, location = None,
        contactInfo = None, name = None, signingTime = None\<rparr>,
       \<lparr>index = 1, contents = [171], byteRange = [0, 1, 2, 3], reason = None, location = None,
        contactInfo = None, name = None, signingTime = None\<rparr>], [])"
proof -
  let ?s = "str ''<< /Type /Sig /Contents <AB> >> << /Type /Sig /ByteRange [0 1 2 3] /Contents <CD> >>''"
  let ?r0 = "\<lparr>index = 0, contents = [171], byteRange = [0, 1, 2, 3], reason = None, location = None,
              contactInfo = None, name = None, signingTime = None\<rparr>"
  let ?r1 = "\<lparr>index = 1, contents = [171], byteRange = [0, 1, 2, 3], reason = None, location = None,
              contactInfo = None, name = None, signingTime = None\<rparr>"
  have s: "decodeLatin1 nearbyDoc = ?s"
    by (simp add: nearbyDoc_def regex_eval)
  have h: "hexToBytes [65, 66] = [171]"
    by code_simp
  have e1: "regexExec sigRegex ?s 0 = Some (3, 13, [])"
    by (simp add: regex_eval)
  have p1: "processMarker ?s 3 (0, []) = (Inr (), 1, [?r0])"
    by (simp add: regex_eval marker_eval h)
  have e2: "regexExec sigRegex ?s 13 = Some (35, 45, [])"
    by (simp add: regex_eval)
  have p2: "processMarker ?s 35 (1, [?r0]) = (Inr (), 2, [?r0, ?r1])"
    by (simp add: regex_eval marker_eval h)
  have e3: "regexExec sigRegex ?s 45 = None"
    by (simp add: regex_eval)
  have "extractLoop ?s 0 0 [] [] = extractLoop ?s 13 1 [?r0] []"
    by (rule extractLoop_completes [OF e1 p1])
  also have "\<dots> = extractLoop ?s 45 2 [?r0, ?r1] []"
    by (rule extractLoop_completes [OF e2 p2])
  also have "\<dots> = ([?r0, ?r1], [])"
    by (rule extractLoop_done [OF e3])
  finally show ?thesis by (simp only: extractRun_def s)
qed

lemmas uri_eval =
  isUnescaped_def hexDigitUpper_def parseHexOctet_def isHexDigit_def hexVal_def leadingOnes_def
  isCont_def utf8CodePoint_def utf16Encode_def numeral_2_eq_2 numeral_3_eq_3

lemma decode_badReason: "decodeURIComponent (escape [233]) = Inl URIError"
  by (simp add: uri_eval)


subsection \<open>The counter runs ahead of the records after an exception\<close>

lemma searchFrom_skip_replicate:
  "\<not> inCls c x \<Longrightarrow>
   searchFrom (One c # r) prev i (replicate n x @ rest)
   = searchFrom (One c # r) (if n = 0 then prev else Some x) (i + n) rest"
  by (induction n arbitrary: prev i) simp_all

lemma gapDoc_run:
  "extractRun gapDoc
   = ([\<lparr>index = 1, contents = [205], byteRange = [4, 5, 6, 7], reason = None, location = None,
        contactInfo = None, name = None, signingTime = None\<rparr>], [(1, URIError)])"
proof -
  let ?s = "str ''<< /Type /Sig /ByteRange [0 1 2 3] /Contents <AB> /Reason ('' @ [233] @ str '') >>''
            @ replicate 5000 32 @ str ''<< /Type /Sig /ByteRange [4 5 6 7] /Contents <CD> >>''"
  let ?r = "\<lparr>index = 1, contents = [205], byteRange = [4, 5, 6, 7], reason = None, location = None,
             contactInfo = None, name = None, signingTime = None\<rparr>"
  have s: "decodeLatin1 gapDoc = ?s"
    by (simp add: gapDoc_def badReasonDoc_def regex_eval)
  have h1: "hexToBytes [65, 66] = [171]"
    by code_simp
  have h2: "hexToBytes [67, 68] = [205]"
    by code_simp
  have e1: "regexExec sigRegex ?s 0 = Some (3, 13, [])"
    by (simp add: regex_eval)
  have p1: "processMarker ?s 3 (0, []) = (Inl URIError, 1, [])"
    by (simp add: regex_eval marker_eval h1 uri_eval)
  have e2: "regexExec sigRegex ?s 13 = Some (5067, 5077, [])"
    by (simp add: regex_eval searchFrom_skip_replicate)
  have p2: "processMarker ?s 5067 (1, []) = (Inr (), 2, [?r])"
    by (simp add: regex_eval marker_eval h2 searchFrom_skip_replicate)
  have e3: "regexExec sigRegex ?s 5077 = None"
    by (simp add: regex_eval)
  have "extractLoop ?s 0 0 [] [] = extractLoop ?s 13 1 [] ([] @ [(1, URIError)])"
    by (rule extractLoop_throws [OF e1 p1])
  also have "\<dots> = extractLoop ?s 5077 2 [?r] ([] @ [(1, URIError)])"
    by (rule extractLoop_completes [OF e2 p2])
  also have "\<dots> = ([?r], [] @ [(1, URIError)])"
    by (rule extractLoop_done [OF e3])
  finally show ?thesis by (simp only: extractRun_def s append_Nil)
qed

lemma searchFrom_skip_replicate_end:
  "\<not> inCls c x \<Longrightarrow>
   searchFrom (One c # r) prev i (replicate n x)
   = searchFrom (One c # r) (if n = 0 then prev else Some x) (i + n) []"
  using searchFrom_skip_replicate [of c x r prev i n "[]"] by simp

lemma distantDoc_run:
  "extractRun distantDoc
   = ([\<lparr>index = 0, contents = [205], byteRange = [0, 1, 2, 3], reason = None, location = None,
        contactInfo = None, name = None, signingTime = None\<rparr>], [])"
proof -
  let ?s = "str ''<< /Type /Sig /Contents <AB> >>'' @ replicate 10000 32
            @ str ''<< /Type /Sig /ByteRange [0 1 2 3] /Contents <CD> >>''"
  let ?r = "\<lparr>index = 0, contents = [205], byteRange = [0, 1, 2, 3], reason = None, location = None,
             contactInfo = None, name = None, signingTime = None\<rparr>"
  have s: "decodeLatin1 distantDoc = ?s"
    by (simp add: distantDoc_def regex_eval)
  have h: "hexToBytes [67, 68] = [205]"
    by code_simp
  have e1: "regexExec sigRegex ?s 0 = Some (3, 13, [])"
    by (simp add: regex_eval)
  have p1: "processMarker ?s 3 (0, []) = (Inr (), 0, [])"
    by (simp add: regex_eval marker_eval searchFrom_skip_replicate_end)
  have e2: "regexExec sigRegex ?s 13 = Some (10034, 10044, [])"
    by (simp add: regex_eval searchFrom_skip_replicate)
  have p2: "processMarker ?s 10034 (0, []) = (Inr (), 1, [?r])"
    by (simp add: regex_eval marker_eval h searchFrom_skip_replicate)
  have e3: "regexExec sigRegex ?s 10044 = None"
    by (simp add: regex_eval)
  have "extractLoop ?s 0 0 [] [] = extractLoop ?s 13 0 [] []"
    by (rule extractLoop_completes [OF e1 p1])
  also have "\<dots> = extractLoop ?s 10044 1 [?r] []"
    by (rule extractLoop_completes [OF e2 p2])
  also have "\<dots> = ([?r], [])"
    by (rule extractLoop_done [OF e3])
  finally show ?thesis by (simp only: extractRun_def s)
qed

subsection \<open>Indexes of the extracted records\<close>

text \<open>
  C6 (as amended). The records returned by \<^verbatim>\<open>extractSignatures\<close> carry strictly
  increasing indexes in discovery order, each below the number of records plus the number
  of exceptions caught; when no exception was caught (no warning was logged) the indexes
  are \<open>0, ..., K - 1\<close> for the \<open>K\<close> records returned. A marker in whose search window no
  byte range or no payload is found is skipped: it adds no record and leaves the counter
  unchanged.
\<close>

theorem extracted_indexes_increase:
  "sorted_wrt (<) (map index (extractSignatures pdfBytes))
   \<and> (\<forall>x \<in> set (extractSignatures pdfBytes).
         index x < length (extractSignatures pdfBytes) + length (snd (extractRun pdfBytes)))
   \<and> (snd (extractRun pdfBytes) = [] \<longrightarrow>
         map index (extractSignatures pdfBytes) = [0..<length (extractSignatures pdfBytes)])
   \<and> (regexMatch byteRangeRegex (contextWindow s m) = None
        \<or> regexMatch contentsRegex (contextWindow s m) = None \<longrightarrow>
         processMarker s m (i, sigs) = (Inr (), i, sigs))"
proof -
  have "loopInvariant (length (fst (extractRun pdfBytes)) + length (snd (extractRun pdfBytes)))
          (fst (extractRun pdfBytes)) (snd (extractRun pdfBytes))"
    by (rule extractRun_invariant)
  then have "sorted_wrt (<) (map index (extractSignatures pdfBytes))"
    and "\<forall>x \<in> set (extractSignatures pdfBytes).
           index x < length (extractSignatures pdfBytes) + length (snd (extractRun pdfBytes))"
    and "snd (extractRun pdfBytes) = [] \<longrightarrow>
           map index (extractSignatures pdfBytes) = [0..<length (extractSignatures pdfBytes)]"
    by (simp_all add: loopInvariant_def extractSignatures_def)
  moreover have "regexMatch byteRangeRegex (contextWindow s m) = None
        \<or> regexMatch contentsRegex (contextWindow s m) = None \<longrightarrow>
         processMarker s m (i, sigs) = (Inr (), i, sigs)"
    using processMarker_skips [of s m "(i, sigs)"] by blast
  ultimately show ?thesis by blast
qed

theorem extracted_indexes_increase_witness:
  "map index (extractSignatures nearbyDoc) = [0, 1]
   \<and> map index (extractSignatures gapDoc) = [1]
   \<and> processMarker (str ''<< /Type /Sig /Contents <AB> >>'') 3 (7, []) = (Inr (), 7, [])"
proof -
  have w: "snd (extractRun nearbyDoc) = []" by (simp add: nearbyDoc_run)
  have l: "length (extractSignatures nearbyDoc) = 2"
    by (simp add: extractSignatures_def nearbyDoc_run)
  have g: "map index (extractSignatures gapDoc) = [1]"
    by (simp add: extractSignatures_def gapDoc_run)
  have b: "regexMatch byteRangeRegex (contextWindow (str ''<< /Type /Sig /Contents <AB> >>'') 3) = None"
    by (simp add: regex_eval)
  have u: "[0..<2] = [0, 1]" by (simp add: upt_rec)
  from extracted_indexes_increase [of nearbyDoc "str ''<< /Type /Sig /Contents <AB> >>''" 3 7 "[]"] w l g b u
  show ?thesis by simp
qed

text \<open>
  The claim as stated fails on a document whose first dictionary has no byte range and is
  followed closely by a complete dictionary: the window of the first marker reaches the
  second dictionary, so two records are returned, with indexes 0 and 1, instead of one.
\<close>

theorem nearby_dictionaries_counterexample:
  "length (extractSignatures nearbyDoc) = 2 \<and> map index (extractSignatures nearbyDoc) = [0, 1]"
  by (simp add: extractSignatures_def nearbyDoc_run)

text \<open>
  On the other hand the counter runs ahead of the records once an exception was caught:
  in the sample document the first signature is dropped after the counter was incremented,
  and the only record returned has index 1.
\<close>

lemma index_gap_after_exception:
  "map index (extractSignatures gapDoc) = [1] \<and> snd (extractRun gapDoc) = [(1, URIError)]"
  by (simp add: extractSignatures_def gapDoc_run)

text \<open>
  When the complete dictionary lies beyond the window of the first marker, the first
  dictionary is skipped and the second gives the only record, with index 0.
\<close>

lemma distant_dictionaries_one_record:
  "map index (extractSignatures distantDoc) = [0] \<and> snd (extractRun distantDoc) = []"
  by (simp add: extractSignatures_def distantDoc_run)

subsection \<open>Exceptions while a marker is processed\<close>






section \<open>Properties of the Validator\<close>

text \<open>The four ways through \<^verbatim>\<open>validateSignature\<close>.\<close>

lemma validate_decode_error:
  assumes "fromDer f (contents sig) = Inl e"
  shows "validateSignature f now sig pdfBytes trustedCert
         = (initialResult sig)\<lparr>errorMessage := Some (catchMessage e)\<rparr>"
  using assms by (simp add: validateSignature_def)

lemma validate_no_certificates:
  assumes "fromDer f (contents sig) = Inr p7" and "certificates p7 = []"
  shows "validateSignature f now sig pdfBytes trustedCert
         = (initialResult sig)\<lparr>errorMessage := Some (str ''No certificates found in signature'')\<rparr>"
  using assms by (simp add: validateSignature_def)

lemma validate_self_check_throws:
  assumes "fromDer f (contents sig) = Inr p7" and "certificates p7 = signerCert # others"
    and "isIssuer f signerCert signerCert = Inl e"
  shows "validateSignature f now sig pdfBytes trustedCert
         = (checkExpired now (signerInfo signerCert (initialResult sig)))
             \<lparr>errorMessage := Some (catchMessage e)\<rparr>"
  using assms by (simp add: validateSignature_def Let_def)

lemma validate_completes:
  assumes "fromDer f (contents sig) = Inr p7" and "certificates p7 = signerCert # others"
    and "isIssuer f signerCert signerCert = Inr selfSigned"
  shows "validateSignature f now sig pdfBytes trustedCert
         = (checkCoverage sig pdfBytes (signingDate sig p7 (algorithmInfo signerCert
              (checkTrust f trustedCert signerCert (certificates p7)
                 ((checkExpired now (signerInfo signerCert (initialResult sig)))
                    \<lparr>isSelfSigned := selfSigned\<rparr>)))))\<lparr>isValid := True\<rparr>"
  using assms by (simp add: validateSignature_def Let_def)

lemma validate_cases:
  obtains (decode_error) e where "fromDer f (contents sig) = Inl e"
  | (no_certificates) p7 where "fromDer f (contents sig) = Inr p7" "certificates p7 = []"
  | (self_check_throws) p7 signerCert others e where
      "fromDer f (contents sig) = Inr p7" "certificates p7 = signerCert # others"
      "isIssuer f signerCert signerCert = Inl e"
  | (completes) p7 signerCert others selfSigned where
      "fromDer f (contents sig) = Inr p7" "certificates p7 = signerCert # others"
      "isIssuer f signerCert signerCert = Inr selfSigned"
proof (cases "fromDer f (contents sig)")
  case (Inl e)
  then show ?thesis by (rule decode_error)
next
  case (Inr p7)
  show ?thesis
  proof (cases "certificates p7")
    case Nil
    with Inr show ?thesis by (rule no_certificates)
  next
    case (Cons signerCert others)
    show ?thesis
    proof (cases "isIssuer f signerCert signerCert")
      case (Inl e)
      with Inr Cons show ?thesis by (rule self_check_throws)
    next
      case (Inr selfSigned)
      with \<open>fromDer f (contents sig) = Inr p7\<close> Cons show ?thesis by (rule completes)
    qed
  qed
qed

text \<open>What each block of the Validator leaves unchanged.\<close>

lemma signerInfo_fields [simp]:
  "isValid (signerInfo c r) = isValid r"
  "isTrusted (signerInfo c r) = isTrusted r"
  "coverageStatus (signerInfo c r) = coverageStatus r"
  "errorMessage (signerInfo c r) = errorMessage r"
  "signatureIndex (signerInfo c r) = signatureIndex r"
  "validFrom (signerInfo c r) = notBefore c"
  "validTo (signerInfo c r) = notAfter c"
  by (simp_all add: signerInfo_def)

lemma checkExpired_fields [simp]:
  "isValid (checkExpired now r) = isValid r"
  "isTrusted (checkExpired now r) = isTrusted r"
  "coverageStatus (checkExpired now r) = coverageStatus r"
  "errorMessage (checkExpired now r) = errorMessage r"
  "signatureIndex (checkExpired now r) = signatureIndex r"
  "validFrom (checkExpired now r) = validFrom r"
  "validTo (checkExpired now r) = validTo r"
  "isExpired (checkExpired now r) = (now > validTo r \<or> now < validFrom r)"
  by (simp_all add: checkExpired_def)

lemma checkTrust_fields [simp]:
  "isValid (checkTrust f t c cs r) = isValid r"
  "coverageStatus (checkTrust f t c cs r) = coverageStatus r"
  "errorMessage (checkTrust f t c cs r) = errorMessage r"
  "signatureIndex (checkTrust f t c cs r) = signatureIndex r"
  "validFrom (checkTrust f t c cs r) = validFrom r"
  "validTo (checkTrust f t c cs r) = validTo r"
  "isExpired (checkTrust f t c cs r) = isExpired r"
  by (simp_all add: checkTrust_def split: option.splits sum.splits)

lemma algorithmInfo_fields [simp]:
  "isValid (algorithmInfo c r) = isValid r"
  "isTrusted (algorithmInfo c r) = isTrusted r"
  "coverageStatus (algorithmInfo c r) = coverageStatus r"
  "errorMessage (algorithmInfo c r) = errorMessage r"
  "signatureIndex (algorithmInfo c r) = signatureIndex r"
  "validFrom (algorithmInfo c r) = validFrom r"
  "validTo (algorithmInfo c r) = validTo r"
  "isExpired (algorithmInfo c r) = isExpired r"
  by (simp_all add: algorithmInfo_def)

lemma signingDate_fields [simp]:
  "isValid (signingDate sig p7 r) = isValid r"
  "isTrusted (signingDate sig p7 r) = isTrusted r"
  "coverageStatus (signingDate sig p7 r) = coverageStatus r"
  "errorMessage (signingDate sig p7 r) = errorMessage r"
  "signatureIndex (signingDate sig p7 r) = signatureIndex r"
  "validFrom (signingDate sig p7 r) = validFrom r"
  "validTo (signingDate sig p7 r) = validTo r"
  "isExpired (signingDate sig p7 r) = isExpired r"
  by (simp_all add: signingDate_def split: option.splits)

lemma checkCoverage_fields [simp]:
  "isValid (checkCoverage sig pdfBytes r) = isValid r"
  "isTrusted (checkCoverage sig pdfBytes r) = isTrusted r"
  "errorMessage (checkCoverage sig pdfBytes r) = errorMessage r"
  "signatureIndex (checkCoverage sig pdfBytes r) = signatureIndex r"
  "validFrom (checkCoverage sig pdfBytes r) = validFrom r"
  "validTo (checkCoverage sig pdfBytes r) = validTo r"
  "isExpired (checkCoverage sig pdfBytes r) = isExpired r"
  by (simp_all add: checkCoverage_def Let_def)

lemma initialResult_fields [simp]:
  "isValid (initialResult sig) = False"
  "isTrusted (initialResult sig) = False"
  "coverageStatus (initialResult sig) = CoverageUnknown"
  "errorMessage (initialResult sig) = None"
  "signatureIndex (initialResult sig) = index sig"
  "validFrom (initialResult sig) = 0"
  "validTo (initialResult sig) = 0"
  "isExpired (initialResult sig) = False"
  "signerName (initialResult sig) = str ''Unknown''"
  by (simp_all add: initialResult_def)

lemma validate_signatureIndex:
  "signatureIndex (validateSignature f now sig pdfBytes trustedCert) = index sig"
proof (cases f sig rule: validate_cases)
  case (decode_error e)
  then show ?thesis by (simp add: validate_decode_error)
next
  case (no_certificates p7)
  then show ?thesis by (simp add: validate_no_certificates)
next
  case (self_check_throws p7 signerCert others e)
  then show ?thesis by (simp add: validate_self_check_throws)
next
  case (completes p7 signerCert others selfSigned)
  then show ?thesis by (simp add: validate_completes)
qed

lemma validate_isValid_iff:
  "isValid (validateSignature f now sig pdfBytes trustedCert)
   = (\<exists>p7 signerCert others selfSigned. fromDer f (contents sig) = Inr p7
        \<and> certificates p7 = signerCert # others
        \<and> isIssuer f signerCert signerCert = Inr selfSigned)"
proof (cases f sig rule: validate_cases)
  case (decode_error e)
  then show ?thesis by (simp add: validate_decode_error)
next
  case (no_certificates p7)
  then show ?thesis by (simp add: validate_no_certificates)
next
  case (self_check_throws p7 signerCert others e)
  then show ?thesis by (simp add: validate_self_check_throws)
next
  case (completes p7 signerCert others selfSigned)
  then show ?thesis by (simp add: validate_completes)
qed

text \<open>
  C10. When no trusted certificate is supplied, the result has \<^verbatim>\<open>isTrusted == false\<close>,
  whatever the document bytes are and whatever the payload decodes to.
\<close>

theorem no_trusted_certificate_not_trusted:
  "isTrusted (validateSignature f now sig pdfBytes None) = False"
proof (cases f sig rule: validate_cases)
  case (decode_error e)
  then show ?thesis by (simp add: validate_decode_error)
next
  case (no_certificates p7)
  then show ?thesis by (simp add: validate_no_certificates)
next
  case (self_check_throws p7 signerCert others e)
  then show ?thesis by (simp add: validate_self_check_throws)
next
  case (completes p7 signerCert others selfSigned)
  then show ?thesis by (simp add: validate_completes checkTrust_def)
qed

text \<open>
  C5. Once the payload has decoded to a message with a signer certificate, the result
  carries that certificate's validity window, and \<^verbatim>\<open>isExpired\<close> is true exactly when the
  evaluation time is strictly before \<^verbatim>\<open>validFrom\<close> or strictly after \<^verbatim>\<open>validTo\<close>: it is
  false at every time of the closed interval, and a certificate that is not yet valid is
  flagged expired.
\<close>

theorem expired_outside_validity_window:
  assumes "fromDer f (contents sig) = Inr p7" and "certificates p7 = signerCert # others"
  shows "validFrom (validateSignature f now sig pdfBytes trustedCert) = notBefore signerCert
       \<and> validTo (validateSignature f now sig pdfBytes trustedCert) = notAfter signerCert
       \<and> (isExpired (validateSignature f now sig pdfBytes trustedCert)
            \<longleftrightarrow> now < notBefore signerCert \<or> notAfter signerCert < now)
       \<and> (notBefore signerCert \<le> now \<and> now \<le> notAfter signerCert
            \<longrightarrow> \<not> isExpired (validateSignature f now sig pdfBytes trustedCert))"
proof (cases "isIssuer f signerCert signerCert")
  case (Inl e)
  with assms show ?thesis by (auto simp: validate_self_check_throws)
next
  case (Inr selfSigned)
  with assms show ?thesis by (auto simp: validate_completes)
qed

theorem expired_outside_validity_window_witness:
  "isExpired (validateSignature sampleForge 999 (sampleSignature [48]) [] None)
   \<and> \<not> isExpired (validateSignature sampleForge 1000 (sampleSignature [48]) [] None)
   \<and> \<not> isExpired (validateSignature sampleForge 2000 (sampleSignature [48]) [] None)
   \<and> isExpired (validateSignature sampleForge 2001 (sampleSignature [48]) [] None)
   \<and> validFrom (validateSignature sampleForge 999 (sampleSignature [48]) [] None) = 1000
   \<and> validTo (validateSignature sampleForge 999 (sampleSignature [48]) [] None) = 2000"
proof -
  have d: "fromDer sampleForge (contents (sampleSignature [48]))
           = Inr \<lparr>certificates = [sampleCert], authenticatedAttributes = None\<rparr>"
    by (simp add: sampleForge_def sampleSignature_def)
  have c: "certificates \<lparr>certificates = [sampleCert], authenticatedAttributes = None\<rparr> = sampleCert # []"
    by simp
  have n: "notBefore sampleCert = 1000" "notAfter sampleCert = 2000"
    by (simp_all add: sampleCert_def)
  from expired_outside_validity_window [OF d c, of 999 "[]" None]
       expired_outside_validity_window [OF d c, of 1000 "[]" None]
       expired_outside_validity_window [OF d c, of 2000 "[]" None]
       expired_outside_validity_window [OF d c, of 2001 "[]" None] n
  show ?thesis by simp
qed

text \<open>
  C2. The library's errors carry a message (no \<^verbatim>\<open>Error\<close> with an empty message is
  thrown). Then a payload that fails to decode gives a result with \<^verbatim>\<open>isValid == false\<close>,
  the message of the error as non-empty \<^verbatim>\<open>errorMessage\<close>, \<^verbatim>\<open>signerName == 'Unknown'\<close> and
  both dates at the zero date; and every result with \<^verbatim>\<open>isValid == false\<close> has a non-empty
  \<^verbatim>\<open>errorMessage\<close>.
\<close>

theorem decode_failure_result:
  assumes "\<And>payload. fromDer f payload \<noteq> Inl (JsError [])"
    and "\<And>parent child. isIssuer f parent child \<noteq> Inl (JsError [])"
  shows "(\<forall>e. fromDer f (contents sig) = Inl e \<longrightarrow>
            isValid (validateSignature f now sig pdfBytes trustedCert) = False
          \<and> errorMessage (validateSignature f now sig pdfBytes trustedCert) = Some (catchMessage e)
          \<and> catchMessage e \<noteq> []
          \<and> signerName (validateSignature f now sig pdfBytes trustedCert) = str ''Unknown''
          \<and> validFrom (validateSignature f now sig pdfBytes trustedCert) = 0
          \<and> validTo (validateSignature f now sig pdfBytes trustedCert) = 0)
       \<and> (isValid (validateSignature f now sig pdfBytes trustedCert) = False \<longrightarrow>
            (\<exists>m. errorMessage (validateSignature f now sig pdfBytes trustedCert) = Some m \<and> m \<noteq> []))"
proof -
  have msg1: "catchMessage e \<noteq> []" if "fromDer f payload = Inl e" for e payload
    using that assms(1) [of payload] by (cases e) (auto simp: catchMessage_def str_def)
  have msg2: "catchMessage e \<noteq> []" if "isIssuer f a b = Inl e" for e a b
    using that assms(2) [of a b] by (cases e) (auto simp: catchMessage_def str_def)
  show ?thesis
  proof (cases f sig rule: validate_cases)
    case (decode_error e)
    with msg1 [OF decode_error] show ?thesis by (simp add: validate_decode_error)
  next
    case (no_certificates p7)
    then show ?thesis by (simp add: validate_no_certificates str_def)
  next
    case (self_check_throws p7 signerCert others e)
    with msg2 [OF self_check_throws(3)] show ?thesis by (simp add: validate_self_check_throws)
  next
    case (completes p7 signerCert others selfSigned)
    then show ?thesis by (simp add: validate_completes)
  qed
qed

theorem decode_failure_result_witness:
  "isValid (validateSignature sampleForge 0 (sampleSignature []) [] None) = False
   \<and> errorMessage (validateSignature sampleForge 0 (sampleSignature []) [] None)
       = Some (str ''Too few bytes to parse DER.'')
   \<and> str ''Too few bytes to parse DER.'' \<noteq> []
   \<and> signerName (validateSignature sampleForge 0 (sampleSignature []) [] None) = str ''Unknown''
   \<and> validFrom (validateSignature sampleForge 0 (sampleSignature []) [] None) = 0
   \<and> validTo (validateSignature sampleForge 0 (sampleSignature []) [] None) = 0"
proof -
  have a: "fromDer sampleForge payload \<noteq> Inl (JsError [])" for payload
    by (simp add: sampleForge_def str_def)
  have b: "isIssuer sampleForge parent child \<noteq> Inl (JsError [])" for parent child
    by (simp add: sampleForge_def forgeIsIssuer_def)
  have d: "fromDer sampleForge (contents (sampleSignature []))
           = Inl (JsError (str ''Too few bytes to parse DER.''))"
    by (simp add: sampleForge_def sampleSignature_def)
  from decode_failure_result [OF a b, of "sampleSignature []" 0 "[]" None] d
  show ?thesis by (simp add: catchMessage_def)
qed

text \<open>
  C1 (as amended). For a result with \<^verbatim>\<open>isValid == true\<close>, \<^verbatim>\<open>coverageStatus\<close> is \<^verbatim>\<open>'full'\<close>
  exactly when the byte range has four elements and \<^verbatim>\<open>byteRange[2] + byteRange[3]\<close> is the
  length of the document, \<^verbatim>\<open>'partial'\<close> exactly when it has four elements and that sum is
  strictly less, and \<^verbatim>\<open>'unknown'\<close> in every other case. A result with
  \<^verbatim>\<open>isValid == false\<close> keeps the default \<^verbatim>\<open>'unknown'\<close>, whatever the byte range is.
\<close>

theorem coverage_status_of_valid_result:
  "(isValid (validateSignature f now sig pdfBytes trustedCert) \<longrightarrow>
      (coverageStatus (validateSignature f now sig pdfBytes trustedCert) = CoverageFull
         \<longleftrightarrow> length (ExtractedSignature.byteRange sig) = 4
             \<and> ExtractedSignature.byteRange sig ! 2 + ExtractedSignature.byteRange sig ! 3
                 = int (length pdfBytes))
    \<and> (coverageStatus (validateSignature f now sig pdfBytes trustedCert) = CoveragePartial
         \<longleftrightarrow> length (ExtractedSignature.byteRange sig) = 4
             \<and> ExtractedSignature.byteRange sig ! 2 + ExtractedSignature.byteRange sig ! 3
                 < int (length pdfBytes))
    \<and> (coverageStatus (validateSignature f now sig pdfBytes trustedCert) = CoverageUnknown
         \<longleftrightarrow> length (ExtractedSignature.byteRange sig) \<noteq> 4
             \<or> ExtractedSignature.byteRange sig ! 2 + ExtractedSignature.byteRange sig ! 3
                 > int (length pdfBytes)))
   \<and> (\<not> isValid (validateSignature f now sig pdfBytes trustedCert) \<longrightarrow>
        coverageStatus (validateSignature f now sig pdfBytes trustedCert) = CoverageUnknown)"
proof (cases f sig rule: validate_cases)
  case (decode_error e)
  then show ?thesis by (simp add: validate_decode_error)
next
  case (no_certificates p7)
  then show ?thesis by (simp add: validate_no_certificates)
next
  case (self_check_throws p7 signerCert others e)
  then show ?thesis by (simp add: validate_self_check_throws)
next
  case (completes p7 signerCert others selfSigned)
  then show ?thesis by (auto simp: validate_completes checkCoverage_def Let_def)
qed

lemma sample_decodes:
  "fromDer sampleForge (contents (sampleSignature [48]))
   = Inr \<lparr>certificates = [sampleCert], authenticatedAttributes = None\<rparr>"
  by (simp add: sampleForge_def sampleSignature_def)

lemma sample_valid: "isValid (validateSignature sampleForge now (sampleSignature [48]) pdfBytes t)"
  by (simp add: validate_isValid_iff sample_decodes) (simp add: sampleForge_def forgeIsIssuer_def)

theorem coverage_status_of_valid_result_witness:
  "coverageStatus (validateSignature sampleForge 0 (sampleSignature [48]) (replicate 250 0) None)
     = CoverageFull
   \<and> coverageStatus (validateSignature sampleForge 0 (sampleSignature [48]) (replicate 300 0) None)
     = CoveragePartial
   \<and> coverageStatus (validateSignature sampleForge 0 (sampleSignature [48]) (replicate 249 0) None)
     = CoverageUnknown
   \<and> coverageStatus (validateSignature sampleForge 0 (sampleSignature []) (replicate 250 0) None)
     = CoverageUnknown"
proof -
  have inv: "\<not> isValid (validateSignature sampleForge 0 (sampleSignature []) (replicate 250 0) None)"
    by (simp add: validate_isValid_iff sampleForge_def forgeIsIssuer_def sampleSignature_def)
  have br: "ExtractedSignature.byteRange (sampleSignature p) = [0, 100, 200, 50]" for p
    by (simp add: sampleSignature_def)
  from coverage_status_of_valid_result [of sampleForge 0 "sampleSignature [48]" "replicate 250 0" None]
       coverage_status_of_valid_result [of sampleForge 0 "sampleSignature [48]" "replicate 300 0" None]
       coverage_status_of_valid_result [of sampleForge 0 "sampleSignature [48]" "replicate 249 0" None]
       coverage_status_of_valid_result [of sampleForge 0 "sampleSignature []" "replicate 250 0" None]
       sample_valid inv
  show ?thesis by (simp add: br)
qed

text \<open>
  The claim as stated fails for a signature whose payload does not decode: its byte
  range ends exactly at the end of a document of 250 bytes, and the coverage is
  \<^verbatim>\<open>'unknown'\<close>, not \<^verbatim>\<open>'full'\<close>.
\<close>

theorem coverage_status_counterexample:
  "length (ExtractedSignature.byteRange (sampleSignature [])) = 4
   \<and> ExtractedSignature.byteRange (sampleSignature []) ! 2
       + ExtractedSignature.byteRange (sampleSignature []) ! 3
       = int (length (replicate 250 (0 :: byte)))
   \<and> coverageStatus (validateSignature sampleForge 0 (sampleSignature []) (replicate 250 0) None)
       = CoverageUnknown"
proof -
  have "fromDer sampleForge (contents (sampleSignature []))
        = Inl (JsError (str ''Too few bytes to parse DER.''))"
    by (simp add: sampleForge_def sampleSignature_def)
  then have "coverageStatus (validateSignature sampleForge 0 (sampleSignature []) (replicate 250 0) None)
             = CoverageUnknown"
    by (simp add: validate_decode_error)
  then show ?thesis by (simp add: sampleSignature_def)
qed

subsection \<open>Trust\<close>

lemma chainLoop_Inr:
  "chainLoop f t certs = Inr b \<Longrightarrow>
   b = (\<exists>c \<in> set certs. isIssuer f t c = Inr True
                          \<or> certificate.serialNumber c = certificate.serialNumber t)"
proof (induction certs)
  case Nil
  then show ?case by simp
next
  case (Cons cert certs)
  then show ?case
    by (cases "isIssuer f t cert") (auto split: if_splits)
qed

lemma chainLoop_no_throw:
  "\<forall>c \<in> set certs. \<exists>b. isIssuer f t c = Inr b \<Longrightarrow> \<exists>b. chainLoop f t certs = Inr b"
  by (induction certs) auto

lemma trustCheck_Inr:
  assumes "trustCheck f t signerCert certs = Inr b"
  shows "b = (isIssuer f t signerCert = Inr True
              \<or> certificate.serialNumber signerCert = certificate.serialNumber t
              \<or> (\<exists>c \<in> set certs. isIssuer f t c = Inr True
                     \<or> certificate.serialNumber c = certificate.serialNumber t))"
proof -
  from assms obtain i ch where i: "isIssuer f t signerCert = Inr i"
    and ch: "chainLoop f t certs = Inr ch"
    and b: "b = (i \<or> certificate.serialNumber signerCert = certificate.serialNumber t \<or> ch)"
    by (auto simp: trustCheck_def Let_def split: sum.splits)
  from chainLoop_Inr [OF ch] i b show ?thesis by auto
qed

lemma trustCheck_no_throw:
  assumes "\<exists>b. isIssuer f t signerCert = Inr b"
    and "\<forall>c \<in> set certs. \<exists>b. isIssuer f t c = Inr b"
  shows "\<exists>b. trustCheck f t signerCert certs = Inr b"
proof -
  from assms(1) obtain i where "isIssuer f t signerCert = Inr i" by blast
  moreover from chainLoop_no_throw [OF assms(2)] obtain ch where "chainLoop f t certs = Inr ch"
    by blast
  ultimately show ?thesis by (simp add: trustCheck_def)
qed

lemma validate_isTrusted:
  assumes "fromDer f (contents sig) = Inr p7" and "certificates p7 = signerCert # others"
    and "isIssuer f signerCert signerCert = Inr selfSigned"
  shows "isTrusted (validateSignature f now sig pdfBytes (Some t))
         = (case trustCheck f t signerCert (certificates p7) of Inl e \<Rightarrow> False | Inr b \<Rightarrow> b)"
  using assms by (simp add: validate_completes checkTrust_def split: sum.splits)

text \<open>The trust check, once it is reached.\<close>

lemma trust_check_reached:
  assumes "fromDer f (contents sig) = Inr p7" and "certificates p7 = signerCert # others"
    and "isIssuer f signerCert signerCert = Inr selfSigned"
  shows "(\<forall>b. trustCheck f t signerCert (certificates p7) = Inr b \<longrightarrow>
            (isTrusted (validateSignature f now sig pdfBytes (Some t))
             \<longleftrightarrow> isIssuer f t signerCert = Inr True
                 \<or> certificate.serialNumber signerCert = certificate.serialNumber t
                 \<or> (\<exists>c \<in> set (certificates p7). isIssuer f t c = Inr True
                        \<or> certificate.serialNumber c = certificate.serialNumber t)))
       \<and> ((\<forall>c \<in> set (certificates p7). \<exists>b. isIssuer f t c = Inr b) \<longrightarrow>
            (\<exists>b. trustCheck f t signerCert (certificates p7) = Inr b))
       \<and> (\<forall>e. trustCheck f t signerCert (certificates p7) = Inl e \<longrightarrow>
            isTrusted (validateSignature f now sig pdfBytes (Some t)) = False)
       \<and> ((\<exists>b. isIssuer f t signerCert = Inr b)
            \<and> certificate.serialNumber signerCert = certificate.serialNumber t \<longrightarrow>
            isTrusted (validateSignature f now sig pdfBytes (Some t)) = True)"
proof (intro conjI allI impI)
  fix b
  assume tc: "trustCheck f t signerCert (certificates p7) = Inr b"
  from validate_isTrusted [OF assms, of now pdfBytes t] tc
  have "isTrusted (validateSignature f now sig pdfBytes (Some t)) = b" by simp
  with trustCheck_Inr [OF tc]
  show "isTrusted (validateSignature f now sig pdfBytes (Some t))
        \<longleftrightarrow> isIssuer f t signerCert = Inr True
            \<or> certificate.serialNumber signerCert = certificate.serialNumber t
            \<or> (\<exists>c \<in> set (certificates p7). isIssuer f t c = Inr True
                   \<or> certificate.serialNumber c = certificate.serialNumber t)"
    by simp
next
  assume all: "\<forall>c \<in> set (certificates p7). \<exists>b. isIssuer f t c = Inr b"
  with assms(2) have "\<exists>b. isIssuer f t signerCert = Inr b" by simp
  from trustCheck_no_throw [OF this all]
  show "\<exists>b. trustCheck f t signerCert (certificates p7) = Inr b" .
next
  fix e
  assume "trustCheck f t signerCert (certificates p7) = Inl e"
  with validate_isTrusted [OF assms, of now pdfBytes t]
  show "isTrusted (validateSignature f now sig pdfBytes (Some t)) = False" by simp
next
  assume a: "(\<exists>b. isIssuer f t signerCert = Inr b)
             \<and> certificate.serialNumber signerCert = certificate.serialNumber t"
  then obtain i where i: "isIssuer f t signerCert = Inr i" by blast
  from i a assms(2) have "trustCheck f t signerCert (certificates p7) = Inr True"
    by (simp add: trustCheck_def)
  with validate_isTrusted [OF assms, of now pdfBytes t]
  show "isTrusted (validateSignature f now sig pdfBytes (Some t)) = True" by simp
qed

text \<open>
  With node-forge's \<^verbatim>\<open>isIssuer\<close> the trust check raises no exception, and it tests the
  issuer name of the trusted certificate against the subject names of the signer
  certificate and of the certificates of the chain.
\<close>

lemma trusted_with_library_isIssuer:
  assumes "fromDer f (contents sig) = Inr p7" and "certificates p7 = signerCert # others"
    and "isIssuer f = forgeIsIssuer"
  shows "isTrusted (validateSignature f now sig pdfBytes (Some t))
         \<longleftrightarrow> issuerName t = subjectName signerCert
             \<or> certificate.serialNumber signerCert = certificate.serialNumber t
             \<or> (\<exists>c \<in> set (certificates p7). issuerName t = subjectName c
                    \<or> certificate.serialNumber c = certificate.serialNumber t)"
proof -
  have s: "isIssuer f signerCert signerCert = Inr (issuerName signerCert = subjectName signerCert)"
    by (simp add: assms(3) forgeIsIssuer_def)
  have i: "isIssuer f t c = Inr True \<longleftrightarrow> issuerName t = subjectName c" for c
    by (simp add: assms(3) forgeIsIssuer_def)
  have "\<forall>c \<in> set (certificates p7). \<exists>b. isIssuer f t c = Inr b"
    by (simp add: assms(3) forgeIsIssuer_def)
  with trust_check_reached [OF assms(1,2) s, where t = t and now = now and pdfBytes = pdfBytes]
  obtain b where b: "trustCheck f t signerCert (certificates p7) = Inr b" by blast
  from trust_check_reached [OF assms(1,2) s, where t = t and now = now and pdfBytes = pdfBytes] b
  have "isTrusted (validateSignature f now sig pdfBytes (Some t))
        \<longleftrightarrow> isIssuer f t signerCert = Inr True
            \<or> certificate.serialNumber signerCert = certificate.serialNumber t
            \<or> (\<exists>c \<in> set (certificates p7). isIssuer f t c = Inr True
                   \<or> certificate.serialNumber c = certificate.serialNumber t)"
    by blast
  then show ?thesis by (simp only: i)
qed

text \<open>
  C4. The signer certificate \<open>sampleCert\<close> (subject Alice, serial 01) is issued by
  \<open>sampleAuthority\<close> (subject Test CA, serial 02) and is the issuer of \<open>sampleChild\<close>
  (subject Bob, serial 03); the embedded chain holds the signer certificate only. The
  payload decodes. With the authority as the trusted certificate, which is the direct
  issuer of the signer certificate, \<^verbatim>\<open>isTrusted\<close> is false. With the child as the trusted
  certificate, which neither issued the signer certificate or a certificate of the chain
  nor shares a serial number with one, \<^verbatim>\<open>isTrusted\<close> is true. The call
  \<^verbatim>\<open>trustedCert.isIssuer(signerCert)\<close> of line 178 (and of line 184, on the chain) asks
  whether the signer certificate issued the trusted one.
\<close>

theorem trust_check_reversed:
  "forgeIsIssuer sampleCert sampleAuthority = Inr True
   \<and> isTrusted (validateSignature sampleForge 0 (sampleSignature [48]) [] (Some sampleAuthority)) = False
   \<and> forgeIsIssuer sampleCert sampleChild = Inr False
   \<and> forgeIsIssuer sampleChild sampleCert = Inr True
   \<and> certificate.serialNumber sampleChild = str ''03''
   \<and> certificate.serialNumber sampleCert = str ''01''
   \<and> isTrusted (validateSignature sampleForge 0 (sampleSignature [48]) [] (Some sampleChild)) = True"
proof -
  have c: "certificates \<lparr>certificates = [sampleCert], authenticatedAttributes = None\<rparr> = sampleCert # []"
    by simp
  have f: "isIssuer sampleForge = forgeIsIssuer" by (simp add: sampleForge_def)
  have a: "isTrusted (validateSignature sampleForge 0 (sampleSignature [48]) [] (Some sampleAuthority)) = False"
    by (simp add: trusted_with_library_isIssuer [OF sample_decodes c f]
          sampleCert_def sampleAuthority_def str_def)
  have b: "isTrusted (validateSignature sampleForge 0 (sampleSignature [48]) [] (Some sampleChild)) = True"
    by (simp add: trusted_with_library_isIssuer [OF sample_decodes c f]
          sampleCert_def sampleChild_def str_def)
  have i: "forgeIsIssuer sampleCert sampleAuthority = Inr True"
    "forgeIsIssuer sampleCert sampleChild = Inr False"
    "forgeIsIssuer sampleChild sampleCert = Inr True"
    by (simp_all add: forgeIsIssuer_def sampleCert_def sampleAuthority_def sampleChild_def str_def)
  have s: "certificate.serialNumber sampleChild = str ''03''"
    "certificate.serialNumber sampleCert = str ''01''"
    by (simp_all add: sampleCert_def sampleChild_def)
  from a b i s show ?thesis by simp
qed
section \<open>Properties of the batch operations\<close>

lemma validatePdfSignatures_nth:
  assumes "k < length (extractSignatures pdfBytes)"
  shows "validatePdfSignatures f clock pdfBytes t ! k
         = validateSignature f (clock k) (extractSignatures pdfBytes ! k) pdfBytes t"
  using assms by (simp add: validatePdfSignatures_def nth_enumerate_eq)

text \<open>
  C3. \<^verbatim>\<open>validatePdfSignatures\<close> returns one result for each signature that
  \<^verbatim>\<open>extractSignatures\<close> returns, in the same order: the \<open>k\<close>-th result is the validation
  of the \<open>k\<close>-th extracted signature and carries its index. \<^verbatim>\<open>countSignatures\<close> is the
  length of what \<^verbatim>\<open>extractSignatures\<close> returns. On a document without a signature
  dictionary marker all three give the empty sequence, or 0.
\<close>

theorem batch_one_result_per_signature:
  "length (validatePdfSignatures f clock pdfBytes t) = length (extractSignatures pdfBytes)
   \<and> (\<forall>k < length (extractSignatures pdfBytes).
         validatePdfSignatures f clock pdfBytes t ! k
         = validateSignature f (clock k) (extractSignatures pdfBytes ! k) pdfBytes t)
   \<and> map signatureIndex (validatePdfSignatures f clock pdfBytes t)
       = map index (extractSignatures pdfBytes)
   \<and> countSignatures pdfBytes = length (extractSignatures pdfBytes)
   \<and> (\<not> hasMarker pdfBytes \<longrightarrow>
         extractSignatures pdfBytes = [] \<and> countSignatures pdfBytes = 0
         \<and> validatePdfSignatures f clock pdfBytes t = [])"
proof (intro conjI allI impI)
  show len: "length (validatePdfSignatures f clock pdfBytes t) = length (extractSignatures pdfBytes)"
    by (simp add: validatePdfSignatures_def)
  show "validatePdfSignatures f clock pdfBytes t ! k
        = validateSignature f (clock k) (extractSignatures pdfBytes ! k) pdfBytes t"
    if "k < length (extractSignatures pdfBytes)" for k
    using that by (rule validatePdfSignatures_nth)
  show "map signatureIndex (validatePdfSignatures f clock pdfBytes t)
        = map index (extractSignatures pdfBytes)"
  proof (rule nth_equalityI)
    show "length (map signatureIndex (validatePdfSignatures f clock pdfBytes t))
          = length (map index (extractSignatures pdfBytes))"
      by (simp add: len)
  next
    fix k
    assume "k < length (map signatureIndex (validatePdfSignatures f clock pdfBytes t))"
    then have k: "k < length (extractSignatures pdfBytes)" by (simp add: len)
    then show "map signatureIndex (validatePdfSignatures f clock pdfBytes t) ! k
               = map index (extractSignatures pdfBytes) ! k"
      by (simp add: len validatePdfSignatures_nth validate_signatureIndex)
  qed
  show "countSignatures pdfBytes = length (extractSignatures pdfBytes)"
    by (simp add: countSignatures_def)
next
  assume "\<not> hasMarker pdfBytes"
  then have "extractRun pdfBytes = ([], [])" by (rule no_marker_no_signature)
  then show "extractSignatures pdfBytes = []" and "countSignatures pdfBytes = 0"
    and "validatePdfSignatures f clock pdfBytes t = []"
    by (simp_all add: extractSignatures_def countSignatures_def validatePdfSignatures_def)
qed

theorem batch_one_result_per_signature_witness:
  "extractSignatures unsignedDoc = [] \<and> countSignatures unsignedDoc = 0
   \<and> validatePdfSignatures sampleForge (\<lambda>k. 0) unsignedDoc None = []
   \<and> countSignatures nearbyDoc = 2
   \<and> length (validatePdfSignatures sampleForge (\<lambda>k. 0) nearbyDoc None) = 2
   \<and> map signatureIndex (validatePdfSignatures sampleForge (\<lambda>k. 0) nearbyDoc None) = [0, 1]"
proof -
  have n: "extractSignatures nearbyDoc
           = [\<lparr>index = 0, contents = [171], byteRange = [0, 1, 2, 3], reason = None, location = None,
               contactInfo = None, name = None, signingTime = None\<rparr>,
              \<lparr>index = 1, contents = [171], byteRange = [0, 1, 2, 3], reason = None, location = None,
               contactInfo = None, name = None, signingTime = None\<rparr>]"
    by (simp add: extractSignatures_def nearbyDoc_run)
  from batch_one_result_per_signature [of sampleForge "\<lambda>k. 0" unsignedDoc None]
       batch_one_result_per_signature [of sampleForge "\<lambda>k. 0" nearbyDoc None]
       unsignedDoc_no_marker n
  show ?thesis by simp
qed

section \<open>Properties of the certificate relay\<close>

text \<open>
  What \<^verbatim>\<open>isValidCertificateUrl\<close> refuses, on a \<^verbatim>\<open>GET\<close> request from an allowed origin with
  a non-empty \<^verbatim>\<open>url\<close> parameter: a parameter that does not parse as a URL, a scheme that
  is neither http nor https, a host name that contains \<^verbatim>\<open>localhost\<close>, \<^verbatim>\<open>127.0.0.1\<close> or
  \<^verbatim>\<open>0.0.0.0\<close> or starts with \<^verbatim>\<open>10.\<close>, \<^verbatim>\<open>172.16.\<close> to \<^verbatim>\<open>172.31.\<close> or \<^verbatim>\<open>192.168.\<close>, and a
  parameter that matches none of the certificate patterns. The relay then answers 403 with
  the JSON error and fetches nothing.
\<close>

lemma relay_refusals:
  assumes "requestMethod req = str ''GET''"
    and "isAllowedOrigin (originHeader req)"
    and "urlParam req = Some u" and "u \<noteq> []"
    and "parseURL u = None
         \<or> (\<exists>p. parseURL u = Some p
                \<and> ((protocol p \<noteq> str ''http:'' \<and> protocol p \<noteq> str ''https:'')
                    \<or> includesStr (hostname p) (str ''localhost'')
                    \<or> includesStr (hostname p) (str ''127.0.0.1'')
                    \<or> includesStr (hostname p) (str ''0.0.0.0'')
                    \<or> isPrivateHostname (hostname p)
                    \<or> \<not> matchesAllowedPattern u))"
  shows "status (fst (fetchHandler parseURL upstream req)) = 403
       \<and> body (fst (fetchHandler parseURL upstream req)) = disallowedBody
       \<and> snd (fetchHandler parseURL upstream req) = []"
proof -
  from assms(5) have "\<not> isValidCertificateUrl parseURL u"
    by (auto simp: isValidCertificateUrl_def BLOCKED_DOMAINS_def)
  moreover have "str ''GET'' \<noteq> str ''OPTIONS''" by (simp add: str_def)
  ultimately show ?thesis
    using assms(1-4) by (simp add: fetchHandler_def disallowedBody_def)
qed

lemma sample_origin_allowed: "isAllowedOrigin (originHeader (sampleRequest u))"
  by (simp add: sampleRequest_def isAllowedOrigin_def ALLOWED_ORIGINS_def startsWith_def
        dropTrailingSlash_def str_def)

lemma relay_refusals_sample:
  "status (fst (fetchHandler sampleParseURL sampleUpstream
             (sampleRequest (Some (str ''http://localhost/root.crt''))))) = 403
   \<and> snd (fetchHandler sampleParseURL sampleUpstream
             (sampleRequest (Some (str ''http://localhost/root.crt'')))) = []
   \<and> status (fst (fetchHandler sampleParseURL sampleUpstream
             (sampleRequest (Some (str ''http://ca.example.com/index.html''))))) = 403
   \<and> status (fst (fetchHandler sampleParseURL sampleUpstream
             (sampleRequest (Some (str ''ftp://ca.example.com/root.crt''))))) = 403
   \<and> status (fst (fetchHandler sampleParseURL sampleUpstream
             (sampleRequest (Some (str ''not a url''))))) = 403"
proof -
  have m: "requestMethod (sampleRequest u) = str ''GET''" for u
    by (simp add: sampleRequest_def)
  have p: "urlParam (sampleRequest (Some u)) = Some u" for u
    by (simp add: sampleRequest_def)
  have a: "sampleParseURL (str ''http://localhost/root.crt'')
           = Some \<lparr>protocol = str ''http:'', hostname = str ''localhost''\<rparr>"
    by (simp add: sampleParseURL_def str_def)
  have a': "includesStr (hostname \<lparr>protocol = str ''http:'', hostname = str ''localhost''\<rparr>)
              (str ''localhost'')"
    by (simp add: str_def startsWith_def)
  have b: "sampleParseURL (str ''http://ca.example.com/index.html'')
           = Some \<lparr>protocol = str ''http:'', hostname = str ''ca.example.com''\<rparr>"
    by (simp add: sampleParseURL_def str_def)
  have b': "\<not> matchesAllowedPattern (str ''http://ca.example.com/index.html'')"
    by (simp add: matchesAllowedPattern_def endsWithCI_def includesCI_def str_def toUpperAscii_def
          startsWith_def)
  have c: "sampleParseURL (str ''ftp://ca.example.com/root.crt'')
           = Some \<lparr>protocol = str ''ftp:'', hostname = str ''ca.example.com''\<rparr>"
    by (simp add: sampleParseURL_def str_def)
  have c': "protocol \<lparr>protocol = str ''ftp:'', hostname = str ''ca.example.com''\<rparr> \<noteq> str ''http:''
            \<and> protocol \<lparr>protocol = str ''ftp:'', hostname = str ''ca.example.com''\<rparr> \<noteq> str ''https:''"
    by (simp add: str_def)
  have d: "sampleParseURL (str ''not a url'') = None"
    by (simp add: sampleParseURL_def str_def)
  have ne: "str ''http://localhost/root.crt'' \<noteq> []" "str ''http://ca.example.com/index.html'' \<noteq> []"
    "str ''ftp://ca.example.com/root.crt'' \<noteq> []" "str ''not a url'' \<noteq> []"
    by (simp_all add: str_def)
  have r1: "status (fst (fetchHandler sampleParseURL sampleUpstream
                      (sampleRequest (Some (str ''http://localhost/root.crt''))))) = 403
            \<and> snd (fetchHandler sampleParseURL sampleUpstream
                      (sampleRequest (Some (str ''http://localhost/root.crt'')))) = []"
    using relay_refusals [OF m sample_origin_allowed p ne(1), of sampleParseURL sampleUpstream]
          a a' by blast
  have r2: "status (fst (fetchHandler sampleParseURL sampleUpstream
                      (sampleRequest (Some (str ''http://ca.example.com/index.html''))))) = 403"
    using relay_refusals [OF m sample_origin_allowed p ne(2), of sampleParseURL sampleUpstream]
          b b' by blast
  have r3: "status (fst (fetchHandler sampleParseURL sampleUpstream
                      (sampleRequest (Some (str ''ftp://ca.example.com/root.crt''))))) = 403"
    using relay_refusals [OF m sample_origin_allowed p ne(3), of sampleParseURL sampleUpstream]
          c c' by blast
  have r4: "status (fst (fetchHandler sampleParseURL sampleUpstream
                      (sampleRequest (Some (str ''not a url''))))) = 403"
    using relay_refusals [OF m sample_origin_allowed p ne(4), of sampleParseURL sampleUpstream]
          d by blast
  from r1 r2 r3 r4 show ?thesis by simp
qed

lemma sample_host_verdicts:
  "isValidCertificateUrl sampleParseURL (str ''http://127.0.0.2/root.crt'')"
  "isValidCertificateUrl sampleParseURL (str ''http://[::1]/root.crt'')"
  "isValidCertificateUrl sampleParseURL (str ''http://169.254.169.254/root.crt'')"
  "\<not> isValidCertificateUrl sampleParseURL (str ''http://127.0.0.1/root.crt'')"
  by (simp_all add: isValidCertificateUrl_def sampleParseURL_def BLOCKED_DOMAINS_def
        isPrivateHostname_def matchesAllowedPattern_def endsWithCI_def str_def startsWith_def
        toUpperAscii_def)

text \<open>
  C9. The relay receives \<^verbatim>\<open>GET\<close> requests from the allowed origin
  \<^verbatim>\<open>https://Wrapdf.com\<close> whose \<^verbatim>\<open>url\<close> parameter matches the pattern \<^verbatim>\<open>*.crt\<close>, has the
  scheme http and targets a loopback or link-local host. For the loopback host
  \<^verbatim>\<open>127.0.0.1\<close> it answers 403 and fetches nothing. For the loopback hosts \<^verbatim>\<open>127.0.0.2\<close>
  and \<^verbatim>\<open>[::1]\<close> and for the link-local host \<^verbatim>\<open>169.254.169.254\<close> it fetches the URL and
  answers 200: these host names contain none of the three blocked names and start with
  none of the three private prefixes.
\<close>

theorem relay_fetches_loopback_hosts:
  "status (fst (fetchHandler sampleParseURL sampleUpstream
             (sampleRequest (Some (str ''http://127.0.0.1/root.crt''))))) = 403
   \<and> snd (fetchHandler sampleParseURL sampleUpstream
             (sampleRequest (Some (str ''http://127.0.0.1/root.crt'')))) = []
   \<and> status (fst (fetchHandler sampleParseURL sampleUpstream
             (sampleRequest (Some (str ''http://127.0.0.2/root.crt''))))) = 200
   \<and> snd (fetchHandler sampleParseURL sampleUpstream
             (sampleRequest (Some (str ''http://127.0.0.2/root.crt''))))
       = [str ''http://127.0.0.2/root.crt'']
   \<and> status (fst (fetchHandler sampleParseURL sampleUpstream
             (sampleRequest (Some (str ''http://[::1]/root.crt''))))) = 200
   \<and> snd (fetchHandler sampleParseURL sampleUpstream
             (sampleRequest (Some (str ''http://[::1]/root.crt''))))
       = [str ''http://[::1]/root.crt'']
   \<and> status (fst (fetchHandler sampleParseURL sampleUpstream
             (sampleRequest (Some (str ''http://169.254.169.254/root.crt''))))) = 200
   \<and> snd (fetchHandler sampleParseURL sampleUpstream
             (sampleRequest (Some (str ''http://169.254.169.254/root.crt''))))
       = [str ''http://169.254.169.254/root.crt'']"
proof -
  have o: "isAllowedOrigin (Some (str ''https://Wrapdf.com''))"
    using sample_origin_allowed [of None] by (simp add: sampleRequest_def)
  have ne: "str ''GET'' \<noteq> str ''OPTIONS''" "str ''http://127.0.0.1/root.crt'' \<noteq> []"
    "str ''http://127.0.0.2/root.crt'' \<noteq> []" "str ''http://[::1]/root.crt'' \<noteq> []"
    "str ''http://169.254.169.254/root.crt'' \<noteq> []"
    by (simp_all add: str_def)
  show ?thesis
    by (simp add: fetchHandler_def sampleRequest_def sampleUpstream_def sample_host_verdicts o ne)
qed

text \<open>
  An empty or missing \<^verbatim>\<open>url\<close> parameter is answered 400, before the URL is examined.
\<close>

lemma relay_empty_url_is_400:
  "status (fst (fetchHandler parseURL upstream (sampleRequest (Some [])))) = 400
   \<and> status (fst (fetchHandler parseURL upstream (sampleRequest None))) = 400"
proof -
  have o: "isAllowedOrigin (Some (str ''https://Wrapdf.com''))"
    using sample_origin_allowed [of None] by (simp add: sampleRequest_def)
  have ne: "str ''GET'' \<noteq> str ''OPTIONS''" by (simp add: str_def)
  show ?thesis by (simp add: fetchHandler_def sampleRequest_def o ne)
qed


end
